theory Spec2Isabelle
  imports Main "HOL-Library.Word"
begin

unbundle bit_operations_syntax

section \<open>Strings of the source language\<close>

text \<open>
  A string of the program is a finite sequence of UTF-16 code units: \<open>length\<close> counts
  code units, \<open>str[i]\<close> reads one, and \<open>charCodeAt\<close> returns its 16-bit value. A literal
  of the source is written \<open>js ''...''\<close>, a character literal \<open>ch CHR ''.''\<close>.
\<close>

type_synonym jschar = "16 word"
type_synonym jsstring = "jschar list"

definition ch :: "char \<Rightarrow> jschar" where
  "ch c = of_nat (of_char c)"

definition js :: "string \<Rightarrow> jsstring" where
  "js s = map ch s"

text \<open>\<open>str.includes(c)\<close> for a one-character search string.\<close>

definition includes_ch :: "jsstring \<Rightarrow> jschar \<Rightarrow> bool" where
  "includes_ch str c = (c \<in> set str)"

text \<open>\<open>str[i]\<close>: the code unit at \<open>i\<close>, or \<open>undefined\<close> (here \<open>None\<close>) out of range.\<close>

definition at :: "jsstring \<Rightarrow> nat \<Rightarrow> jschar option" where
  "at str i = (if i < length str then Some (str ! i) else None)"

text \<open>\<open>str.slice(a, b)\<close> for non-negative integers \<open>a\<close> and \<open>b\<close>.\<close>

definition slice :: "jsstring \<Rightarrow> nat \<Rightarrow> nat \<Rightarrow> jsstring" where
  "slice str a b = drop a (take b str)"

text \<open>
  The exceptions of the platform that the functions below can throw: \<open>DataError\<close>
  from \<open>crypto.subtle.importKey\<close>, \<open>InvalidCharacterError\<close> from \<open>btoa\<close> and
  \<open>TypeError\<close> from \<open>new URL\<close>. A function that can throw returns \<open>Inl\<close> of the
  exception or \<open>Inr\<close> of its value.
\<close>

datatype js_error = DataError | InvalidCharacterError | TypeError

section \<open>Amount canonicalisation (lib/format)\<close>

text \<open>
  Both functions run the same loop
  \<^verbatim>\<open>let i = str.length - 1; while (i > 0 && str[i] === '0') i--\<close>
  which \<open>lastNonZero str (length str - 1)\<close> computes. It is only reached for a string that
  contains a point, hence a non-empty one.
\<close>

fun lastNonZero :: "jsstring \<Rightarrow> nat \<Rightarrow> nat" where
  "lastNonZero str 0 = 0"
| "lastNonZero str (Suc n) =
     (if at str (Suc n) = Some (ch CHR ''0'') then lastNonZero str n else Suc n)"

text \<open>
  \<open>stripTrailingZeros\<close> at a string argument (\<open>String(value)\<close> is then the argument
  itself; a number is rendered by its caller, see \<open>joinParams\<close>).
\<close>

definition stripTrailingZeros :: "jsstring \<Rightarrow> jsstring" where
  "stripTrailingZeros str =
     (if \<not> includes_ch str (ch CHR ''.'') then str
      else let i = lastNonZero str (length str - 1)
           in if at str i = Some (ch CHR ''.'') then slice str 0 i
              else slice str 0 (i + 1))"

definition formatPrice :: "jsstring \<Rightarrow> jsstring" where
  "formatPrice price =
     (if \<not> includes_ch price (ch CHR ''.'') then price @ js ''.0''
      else let i = lastNonZero price (length price - 1)
           in if at price i = Some (ch CHR ''.'') then slice price 0 (i + 2)
              else slice price 0 (i + 1))"

subsection \<open>The rules as the specification words them\<close>

text \<open>Removing the maximal run of trailing \<open>0\<close> characters.\<close>

definition trimZeros :: "jsstring \<Rightarrow> jsstring" where
  "trimZeros xs = rev (dropWhile (\<lambda>c. c = ch CHR ''0'') (rev xs))"

definition isDigit :: "jschar \<Rightarrow> bool" where
  "isDigit c = (ch CHR ''0'' \<le> c \<and> c \<le> ch CHR ''9'')"

text \<open>A string of decimal digits and points only.\<close>

definition decimalChars :: "jsstring \<Rightarrow> bool" where
  "decimalChars xs = list_all (\<lambda>c. isDigit c \<or> c = ch CHR ''.'') xs"

text \<open>The string has a point with a decimal digit right after it.\<close>

fun pointThenDigit :: "jsstring \<Rightarrow> bool" where
  "pointThenDigit (a # b # rest) =
     ((a = ch CHR ''.'' \<and> isDigit b) \<or> pointThenDigit (b # rest))"
| "pointThenDigit _ = False"

text \<open>The string ends in a point.\<close>

definition endsInPoint :: "jsstring \<Rightarrow> bool" where
  "endsInPoint xs = (xs \<noteq> [] \<and> last xs = ch CHR ''.'')"

section \<open>Digest primitive (lib/crypto)\<close>

type_synonym byte = "8 word"
type_synonym bytes = "byte list"

subsection \<open>\<open>TextEncoder.encode\<close>\<close>

text \<open>
  The encoder turns the string into its sequence of code points (a high surrogate
  followed by a low one is one code point; any other surrogate stands for U+FFFD) and
  writes each in UTF-8.
\<close>

definition isHighSurrogate :: "jschar \<Rightarrow> bool" where
  "isHighSurrogate u = (0xD800 \<le> u \<and> u \<le> 0xDBFF)"

definition isLowSurrogate :: "jschar \<Rightarrow> bool" where
  "isLowSurrogate u = (0xDC00 \<le> u \<and> u \<le> 0xDFFF)"

definition scalar :: "jschar \<Rightarrow> nat" where
  "scalar u = (if isHighSurrogate u \<or> isLowSurrogate u then 0xFFFD else unat u)"

fun codePoints :: "jsstring \<Rightarrow> nat list" where
  "codePoints [] = []"
| "codePoints [u] = [scalar u]"
| "codePoints (u # v # rest) =
     (if isHighSurrogate u \<and> isLowSurrogate v
      then (0x10000 + (unat u - 0xD800) * 0x400 + (unat v - 0xDC00)) # codePoints rest
      else scalar u # codePoints (v # rest))"

definition utf8 :: "nat \<Rightarrow> bytes" where
  "utf8 cp =
     (if cp < 0x80 then [of_nat cp]
      else if cp < 0x800 then [of_nat (0xC0 + cp div 64), of_nat (0x80 + cp mod 64)]
      else if cp < 0x10000
        then [of_nat (0xE0 + cp div 4096), of_nat (0x80 + cp div 64 mod 64),
              of_nat (0x80 + cp mod 64)]
      else [of_nat (0xF0 + cp div 262144), of_nat (0x80 + cp div 4096 mod 64),
            of_nat (0x80 + cp div 64 mod 64), of_nat (0x80 + cp mod 64)])"

definition encode :: "jsstring \<Rightarrow> bytes" where
  "encode str = concat (map utf8 (codePoints str))"

subsection \<open>\<open>hmacSha256Hex\<close>\<close>

text \<open>
  The keyed hash itself, HMAC-SHA-256 of the Web Crypto API, is not code of the
  repository. It is the parameter \<open>hmac\<close> of everything below: any function from the key
  bytes and the message bytes to a 256-bit tag. \<open>digestBytes\<close> is the 32-byte buffer
  that \<open>crypto.subtle.sign\<close> returns for the tag, most significant byte first.

  \<open>crypto.subtle.importKey\<close> comes first, and for an HMAC key it rejects key data of
  length zero with \<open>DataError\<close>; nothing in the repository checks the secret key
  before. The rejection is passed on by every function that awaits \<open>hmacSha256Hex\<close>.

  Each call of the digest is recorded in the log that the asynchronous functions pass
  along, so that "no hash is computed" is a statement about the program: the log is
  returned unchanged.
\<close>

type_synonym digest = "bytes \<Rightarrow> bytes \<Rightarrow> 256 word"
type_synonym hashlog = "(bytes \<times> bytes) list"

definition importKey :: "bytes \<Rightarrow> js_error + bytes" where
  "importKey keyData = (if keyData = [] then Inl DataError else Inr keyData)"

definition digestBytes :: "256 word \<Rightarrow> bytes" where
  "digestBytes w = map (\<lambda>i. ucast (drop_bit (8 * (31 - i)) w)) [0..<32]"

definition hexDigit :: "nat \<Rightarrow> jschar" where
  "hexDigit n = js ''0123456789abcdef'' ! n"

text \<open>\<open>byte.toString(16)\<close>: one or two lower-case hexadecimal digits.\<close>

definition toString16 :: "byte \<Rightarrow> jsstring" where
  "toString16 b =
     (if unat b < 16 then [hexDigit (unat b)]
      else [hexDigit (unat b div 16), hexDigit (unat b mod 16)])"

text \<open>\<open>s.padStart(2, '0')\<close>.\<close>

definition padStart2 :: "jsstring \<Rightarrow> jsstring" where
  "padStart2 s = replicate (2 - length s) (ch CHR ''0'') @ s"

text \<open>The loop \<^verbatim>\<open>for (const byte of bytes) hex += ...\<close>.\<close>

definition toHex :: "bytes \<Rightarrow> jsstring" where
  "toHex bs = fold (\<lambda>byte hex. hex @ padStart2 (toString16 byte)) bs []"

text \<open>
  The value \<open>hmacSha256Hex\<close> resolves to when the key is accepted, and the function
  itself: the key import, then the logged call of the digest.
\<close>

definition hmacHex :: "digest \<Rightarrow> jsstring \<Rightarrow> jsstring \<Rightarrow> jsstring" where
  "hmacHex hmac secret message = toHex (digestBytes (hmac (encode secret) (encode message)))"

definition hmacSha256Hex ::
  "digest \<Rightarrow> jsstring \<Rightarrow> jsstring \<Rightarrow> hashlog \<Rightarrow> (js_error + jsstring) \<times> hashlog" where
  "hmacSha256Hex hmac secret message log =
     (case importKey (encode secret) of
        Inl e \<Rightarrow> (Inl e, log)
      | Inr key \<Rightarrow>
          (let buffer = digestBytes (hmac key (encode message))
           in (Inr (toHex buffer), log @ [(key, encode message)])))"

subsection \<open>\<open>timingSafeEqual\<close>\<close>

text \<open>
  \<open>charCodeAt\<close> is read only at indices below both lengths. The bitwise operators work
  on 32-bit integers.
\<close>

definition charCodeAt :: "jsstring \<Rightarrow> nat \<Rightarrow> 32 word" where
  "charCodeAt s i = ucast (s ! i)"

definition timingSafeEqual :: "jsstring \<Rightarrow> jsstring \<Rightarrow> bool" where
  "timingSafeEqual a b =
     (if length a \<noteq> length b then False
      else fold (\<lambda>i result. result OR (charCodeAt a i XOR charCodeAt b i))
             [0..<length a] 0 = 0)"

section \<open>Response signatures (lib/signature)\<close>

text \<open>
  A value handed to \<open>joinParams\<close> is a string, a number, \<open>undefined\<close> or \<open>null\<close>. The
  numbers and their default rendering \<open>String(v)\<close> are parameters: the type \<open>'n\<close> and
  the function \<open>render\<close>.
\<close>

datatype 'n param = Str jsstring | Num 'n | Undefined | Null

fun String_of :: "('n \<Rightarrow> jsstring) \<Rightarrow> 'n param \<Rightarrow> jsstring" where
  "String_of render (Str s) = s"
| "String_of render (Num n) = render n"
| "String_of render Undefined = js ''undefined''"
| "String_of render Null = js ''null''"

text \<open>\<open>v == null\<close>.\<close>

fun nullish :: "'n param \<Rightarrow> bool" where
  "nullish Undefined = True"
| "nullish Null = True"
| "nullish _ = False"

text \<open>\<open>parts.join(sep)\<close>.\<close>

fun join :: "jsstring \<Rightarrow> jsstring list \<Rightarrow> jsstring" where
  "join sep [] = []"
| "join sep [x] = x"
| "join sep (x # y # rest) = x @ sep @ join sep (y # rest)"

definition joinParams ::
  "('n \<Rightarrow> jsstring) \<Rightarrow> 'n param list \<Rightarrow> nat list \<Rightarrow> jsstring" where
  "joinParams render values priceIndices =
     join (js '':'')
       (map (\<lambda>(i, v).
               if nullish v then []
               else if i \<in> set priceIndices then stripTrailingZeros (String_of render v)
               else String_of render v)
            (enumerate 0 values))"

definition verify ::
  "digest \<Rightarrow> jsstring \<Rightarrow> jsstring \<Rightarrow> jsstring \<Rightarrow> hashlog
   \<Rightarrow> (js_error + bool) \<times> hashlog" where
  "verify hmac secretKey message sig log =
     (case hmacSha256Hex hmac secretKey message log of
        (Inl e, log') \<Rightarrow> (Inl e, log')
      | (Inr expected, log') \<Rightarrow> (Inr (timingSafeEqual expected sig), log'))"

text \<open>An optional field (\<open>basketId?: string\<close>) is \<open>None\<close> when it is absent.\<close>

record 'n PaymentResponse =
  paymentId :: jsstring
  currency :: jsstring
  basketId :: "jsstring option"
  conversationId :: "jsstring option"
  paidPrice :: 'n
  price :: 'n
  signature :: jsstring

definition optional :: "jsstring option \<Rightarrow> 'n param" where
  "optional f = (case f of None \<Rightarrow> Undefined | Some s \<Rightarrow> Str s)"

definition verifyPaymentSignature ::
  "digest \<Rightarrow> ('n \<Rightarrow> jsstring) \<Rightarrow> jsstring \<Rightarrow> 'n PaymentResponse \<Rightarrow> hashlog
   \<Rightarrow> (js_error + bool) \<times> hashlog" where
  "verifyPaymentSignature hmac render secretKey response log =
     (let message = joinParams render
            [Str (paymentId response), Str (currency response),
             optional (basketId response), optional (conversationId response),
             Num (paidPrice response), Num (price response)]
            [4, 5]
      in verify hmac secretKey message (signature response) log)"

definition verifyThreeDSAuthSignature ::
  "digest \<Rightarrow> ('n \<Rightarrow> jsstring) \<Rightarrow> jsstring \<Rightarrow> 'n PaymentResponse \<Rightarrow> hashlog
   \<Rightarrow> (js_error + bool) \<times> hashlog" where
  "verifyThreeDSAuthSignature = verifyPaymentSignature"

text \<open>
  The canonical message of the payment family as the field table words it: the six
  fields in order, joined with a colon, an absent optional field as the empty string and
  the two amounts canonicalised.
\<close>

definition paymentMessage :: "('n \<Rightarrow> jsstring) \<Rightarrow> 'n PaymentResponse \<Rightarrow> jsstring" where
  "paymentMessage render r =
     join (js '':'')
       [paymentId r, currency r,
        (case basketId r of None \<Rightarrow> [] | Some s \<Rightarrow> s),
        (case conversationId r of None \<Rightarrow> [] | Some s \<Rightarrow> s),
        stripTrailingZeros (render (paidPrice r)),
        stripTrailingZeros (render (price r))]"

section \<open>Webhook signatures (lib/webhook)\<close>

text \<open>
  A webhook payload is the parsed request body, an object: a finite map from property
  names to string values. \<open>'k' in payload\<close> asks for the key; reading a property that is
  absent gives \<open>undefined\<close>, which string concatenation renders as \<open>undefined\<close>.
\<close>

type_synonym WebhookPayload = "string \<rightharpoonup> jsstring"

definition hasKey :: "WebhookPayload \<Rightarrow> string \<Rightarrow> bool" where
  "hasKey payload k = (payload k \<noteq> None)"

definition field :: "WebhookPayload \<Rightarrow> string \<Rightarrow> jsstring" where
  "field payload k = (case payload k of None \<Rightarrow> js ''undefined'' | Some v \<Rightarrow> v)"

text \<open>
  The optional argument \<open>merchantId\<close> is \<open>None\<close> when it is not supplied; \<open>!merchantId\<close>
  holds for that and for the empty string. The result \<open>None\<close> is \<open>null\<close>.
\<close>

definition buildMessage ::
  "jsstring \<Rightarrow> WebhookPayload \<Rightarrow> jsstring option \<Rightarrow> jsstring option" where
  "buildMessage secretKey payload merchantId =
     (if hasKey payload ''subscriptionReferenceCode'' then
        (case merchantId of
           None \<Rightarrow> None
         | Some m \<Rightarrow>
             if m = [] then None
             else Some (m @ secretKey @ field payload ''iyziEventType''
                        @ field payload ''subscriptionReferenceCode''
                        @ field payload ''orderReferenceCode''
                        @ field payload ''customerReferenceCode''))
      else if hasKey payload ''token'' then
        Some (secretKey @ field payload ''iyziEventType'' @ field payload ''iyziPaymentId''
              @ field payload ''token'' @ field payload ''paymentConversationId''
              @ field payload ''status'')
      else
        Some (secretKey @ field payload ''iyziEventType'' @ field payload ''paymentId''
              @ field payload ''paymentConversationId'' @ field payload ''status''))"

definition verifyWebhookSignature ::
  "digest \<Rightarrow> jsstring \<Rightarrow> WebhookPayload \<Rightarrow> jsstring \<Rightarrow> jsstring option \<Rightarrow> hashlog
   \<Rightarrow> (js_error + bool) \<times> hashlog" where
  "verifyWebhookSignature hmac secretKey payload sig merchantId log =
     (if sig = [] then (Inr False, log)
      else case buildMessage secretKey payload merchantId of
             None \<Rightarrow> (Inr False, log)
           | Some message \<Rightarrow>
               (case hmacSha256Hex hmac secretKey message log of
                  (Inl e, log') \<Rightarrow> (Inl e, log')
                | (Inr expected, log') \<Rightarrow> (Inr (timingSafeEqual expected sig), log')))"

definition generateWebhookTestSignature ::
  "digest \<Rightarrow> jsstring \<Rightarrow> WebhookPayload \<Rightarrow> jsstring option \<Rightarrow> hashlog
   \<Rightarrow> (js_error + jsstring) \<times> hashlog" where
  "generateWebhookTestSignature hmac secretKey payload merchantId log =
     (case buildMessage secretKey payload merchantId of
        None \<Rightarrow> (Inr [], log)
      | Some message \<Rightarrow> hmacSha256Hex hmac secretKey message log)"

subsection \<open>The three message rules as the specification words them\<close>

definition subscriptionMessage :: "jsstring \<Rightarrow> jsstring \<Rightarrow> WebhookPayload \<Rightarrow> jsstring" where
  "subscriptionMessage merchantId secretKey payload =
     concat [merchantId, secretKey, field payload ''iyziEventType'',
             field payload ''subscriptionReferenceCode'',
             field payload ''orderReferenceCode'',
             field payload ''customerReferenceCode'']"

definition hostedPageMessage :: "jsstring \<Rightarrow> WebhookPayload \<Rightarrow> jsstring" where
  "hostedPageMessage secretKey payload =
     concat [secretKey, field payload ''iyziEventType'', field payload ''iyziPaymentId'',
             field payload ''token'', field payload ''paymentConversationId'',
             field payload ''status'']"

definition directMessage :: "jsstring \<Rightarrow> WebhookPayload \<Rightarrow> jsstring" where
  "directMessage secretKey payload =
     concat [secretKey, field payload ''iyziEventType'', field payload ''paymentId'',
             field payload ''paymentConversationId'', field payload ''status'']"

subsection \<open>Three payloads used as examples\<close>

definition subscriptionExample :: WebhookPayload where
  "subscriptionExample =
     map_of [(''subscriptionReferenceCode'', js ''sub-1''),
             (''orderReferenceCode'', js ''ord-1''),
             (''customerReferenceCode'', js ''cus-1''),
             (''iyziEventType'', js ''subscription.order.success'')]"

definition directExample :: WebhookPayload where
  "directExample =
     map_of [(''paymentId'', js ''pay-1''),
             (''paymentConversationId'', js ''conv-1''),
             (''status'', js ''SUCCESS''),
             (''iyziEventType'', js ''CREDIT_PAYMENT_AUTH''),
             (''merchantId'', js ''M1'')]"

definition mixedExample :: WebhookPayload where
  "mixedExample = subscriptionExample(''token'' \<mapsto> js ''tok-1'')"

section \<open>Authorization header (lib/auth)\<close>

subsection \<open>\<open>btoa\<close>\<close>

text \<open>
  \<open>btoa\<close> takes a string whose code units are all at most \<open>0xFF\<close>, reads them as bytes
  and returns their Base64 text; on any other string it throws
  \<open>InvalidCharacterError\<close>.
\<close>

definition b64char :: "nat \<Rightarrow> jschar" where
  "b64char n =
     js ''ABCDEFGHIJKLMNOPQRSTUVWXYZabcdefghijklmnopqrstuvwxyz0123456789+/'' ! n"

fun base64 :: "bytes \<Rightarrow> jsstring" where
  "base64 [] = []"
| "base64 [a] =
     [b64char (unat a div 4), b64char (unat a mod 4 * 16), ch CHR ''='', ch CHR ''='']"
| "base64 [a, b] =
     [b64char (unat a div 4), b64char (unat a mod 4 * 16 + unat b div 16),
      b64char (unat b mod 16 * 4), ch CHR ''='']"
| "base64 (a # b # c # rest) =
     [b64char (unat a div 4), b64char (unat a mod 4 * 16 + unat b div 16),
      b64char (unat b mod 16 * 4 + unat c div 64), b64char (unat c mod 64)]
     @ base64 rest"

definition isByteString :: "jsstring \<Rightarrow> bool" where
  "isByteString s = list_all (\<lambda>c. c \<le> 0xFF) s"

definition btoa :: "jsstring \<Rightarrow> js_error + jsstring" where
  "btoa s = (if isByteString s then Inr (base64 (map ucast s))
             else Inl InvalidCharacterError)"

subsection \<open>\<open>generateAuthHeader\<close>\<close>

text \<open>The argument \<open>body\<close> is \<open>None\<close> when it is \<open>undefined\<close>.\<close>

definition generateAuthHeader ::
  "digest \<Rightarrow> jsstring \<Rightarrow> jsstring \<Rightarrow> jsstring \<Rightarrow> jsstring \<Rightarrow> jsstring option \<Rightarrow> hashlog
   \<Rightarrow> (js_error + jsstring) \<times> hashlog" where
  "generateAuthHeader hmac apiKey secretKey randomKey uriPath body log =
     (let payload = (case body of Some b \<Rightarrow> uriPath @ b | None \<Rightarrow> uriPath)
      in case hmacSha256Hex hmac secretKey (randomKey @ payload) log of
           (Inl e, log') \<Rightarrow> (Inl e, log')
         | (Inr signatureHex, log') \<Rightarrow>
             (let authString = js ''apiKey:'' @ apiKey @ js ''&randomKey:'' @ randomKey
                               @ js ''&signature:'' @ signatureHex
              in case btoa authString of
                   Inl e \<Rightarrow> (Inl e, log')
                 | Inr b64 \<Rightarrow> (Inr (js ''IYZWSv2 '' @ b64), log')))"

section \<open>Path used for signing (core/http)\<close>

text \<open>
  \<open>str.indexOf(search)\<close>, with \<open>None\<close> for \<open>-1\<close>, and \<open>str.indexOf(search, position)\<close>
  for a position inside the string.
\<close>

fun indexOf :: "jsstring \<Rightarrow> jsstring \<Rightarrow> nat option" where
  "indexOf [] search = (if search = [] then Some 0 else None)"
| "indexOf (c # cs) search =
     (if take (length search) (c # cs) = search then Some 0
      else map_option Suc (indexOf cs search))"

definition indexOfFrom :: "jsstring \<Rightarrow> jsstring \<Rightarrow> nat \<Rightarrow> nat option" where
  "indexOfFrom str search position =
     map_option (\<lambda>i. position + i) (indexOf (drop position str) search)"

text \<open>
  \<open>new URL(url).pathname\<close> belongs to the platform: the parameter \<open>pathname\<close> gives the
  path component of a string the URL parser accepts, and \<open>None\<close> where the constructor
  throws \<open>TypeError\<close>.
\<close>

definition extractUriPath ::
  "(jsstring \<Rightarrow> jsstring option) \<Rightarrow> jsstring \<Rightarrow> js_error + jsstring" where
  "extractUriPath pathname url =
     (case indexOf url (js ''/v2'') of
        Some v2Index \<Rightarrow>
          (case indexOfFrom url (js ''?'') v2Index of
             None \<Rightarrow> Inr (drop v2Index url)
           | Some queryIndex \<Rightarrow> Inr (slice url v2Index queryIndex))
      | None \<Rightarrow>
          (case pathname url of
             None \<Rightarrow> Inl TypeError
           | Some p \<Rightarrow> Inr p))"

section \<open>Properties of the canonicalisers\<close>

lemma dot_not_zero: "ch CHR ''.'' \<noteq> ch CHR ''0''"
  by (simp add: ch_def)

lemma trimZeros_snoc:
  "trimZeros (xs @ [c]) = (if c = ch CHR ''0'' then trimZeros xs else xs @ [c])"
  by (simp add: trimZeros_def)

lemma lastNonZero_le: "lastNonZero str n \<le> n"
  by (induction n) auto

text \<open>
  The loop stops on the last character that is not a zero, provided there is one at all;
  the guard \<open>i > 0\<close> then never cuts the scan short.
\<close>

lemma lastNonZero_trim:
  "n < length str \<Longrightarrow> \<exists>j\<le>n. str ! j \<noteq> ch CHR ''0'' \<Longrightarrow>
   take (Suc (lastNonZero str n)) str = trimZeros (take (Suc n) str)"
proof (induction n)
  case 0
  then show ?case by (cases str) (auto simp: trimZeros_def)
next
  case (Suc n)
  have tk: "take (Suc (Suc n)) str = take (Suc n) str @ [str ! Suc n]"
    using Suc.prems(1) by (simp add: take_Suc_conv_app_nth)
  show ?case
  proof (cases "str ! Suc n = ch CHR ''0''")
    case True
    with Suc.prems obtain j where "j \<le> n" "str ! j \<noteq> ch CHR ''0''"
      by (metis le_SucE)
    with Suc.IH Suc.prems(1)
    have "take (Suc (lastNonZero str n)) str = trimZeros (take (Suc n) str)"
      by auto
    with True Suc.prems(1) show ?thesis
      by (simp add: tk trimZeros_snoc at_def)
  next
    case False
    with Suc.prems(1) show ?thesis
      by (simp add: tk trimZeros_snoc at_def)
  qed
qed

lemma lastNonZero_whole:
  assumes "ch CHR ''.'' \<in> set str"
  shows "take (Suc (lastNonZero str (length str - 1))) str = trimZeros str"
    and "lastNonZero str (length str - 1) < length str"
    and "at str (lastNonZero str (length str - 1)) = Some (last (trimZeros str))"
    and "trimZeros str \<noteq> []"
proof -
  from assms have ne: "str \<noteq> []" by auto
  then have lt: "length str - 1 < length str" by simp
  from assms obtain j where j: "j < length str" "str ! j = ch CHR ''.''"
    by (auto simp: in_set_conv_nth)
  then have ex: "\<exists>j\<le>length str - 1. str ! j \<noteq> ch CHR ''0''"
    using dot_not_zero by (intro exI[of _ j]) auto
  from lastNonZero_trim[OF lt ex] ne
  show t: "take (Suc (lastNonZero str (length str - 1))) str = trimZeros str"
    by simp
  show l: "lastNonZero str (length str - 1) < length str"
    using lastNonZero_le[of str "length str - 1"] lt by linarith
  show "at str (lastNonZero str (length str - 1)) = Some (last (trimZeros str))"
    using l by (simp add: at_def t[symmetric] take_Suc_conv_app_nth)
  show "trimZeros str \<noteq> []"
    using t[symmetric] ne by simp
qed

lemma stripTrailingZeros_eq:
  "stripTrailingZeros x =
     (if ch CHR ''.'' \<notin> set x then x
      else if last (trimZeros x) = ch CHR ''.'' then butlast (trimZeros x)
      else trimZeros x)"
proof (cases "ch CHR ''.'' \<in> set x")
  case False
  then show ?thesis
    by (simp add: stripTrailingZeros_def includes_ch_def)
next
  case True
  note w = lastNonZero_whole[OF True]
  have "take (lastNonZero x (length x - 1)) x = butlast (trimZeros x)"
    using w(1)[symmetric] w(2) by (simp add: butlast_take)
  with True w show ?thesis
    by (simp add: stripTrailingZeros_def includes_ch_def slice_def Let_def)
qed

lemma trimZeros_decomp: "\<exists>k. x = trimZeros x @ replicate k (ch CHR ''0'')"
proof -
  have "rev x = takeWhile (\<lambda>c. c = ch CHR ''0'') (rev x) @ dropWhile (\<lambda>c. c = ch CHR ''0'') (rev x)"
    by simp
  then have "x = trimZeros x @ rev (takeWhile (\<lambda>c. c = ch CHR ''0'') (rev x))"
    unfolding trimZeros_def by (metis rev_append rev_rev_ident)
  moreover have "takeWhile (\<lambda>c. c = ch CHR ''0'') (rev x)
     = replicate (length (takeWhile (\<lambda>c. c = ch CHR ''0'') (rev x))) (ch CHR ''0'')"
    by (rule replicate_length_same[symmetric]) (auto dest: set_takeWhileD)
  then have "rev (takeWhile (\<lambda>c. c = ch CHR ''0'') (rev x))
     = replicate (length (takeWhile (\<lambda>c. c = ch CHR ''0'') (rev x))) (ch CHR ''0'')"
    by (metis rev_replicate)
  ultimately show ?thesis by metis
qed

lemma trimZeros_replicate: "trimZeros (xs @ replicate k (ch CHR ''0'')) = trimZeros xs"
proof (induction k)
  case 0
  then show ?case by simp
next
  case (Suc k)
  have "xs @ replicate (Suc k) (ch CHR ''0'') = (xs @ replicate k (ch CHR ''0'')) @ [ch CHR ''0'']"
    by (simp add: replicate_append_same)
  then show ?case using Suc by (simp add: trimZeros_snoc del: replicate_Suc append_assoc)
qed

lemma trimZeros_idem: "trimZeros (trimZeros x) = trimZeros x"
  using trimZeros_decomp[of x] trimZeros_replicate by metis

lemma trimZeros_last: "trimZeros x \<noteq> [] \<Longrightarrow> last (trimZeros x) \<noteq> ch CHR ''0''"
proof -
  assume ne: "trimZeros x \<noteq> []"
  then have d: "dropWhile (\<lambda>c. c = ch CHR ''0'') (rev x) \<noteq> []"
    by (simp add: trimZeros_def)
  then have "hd (dropWhile (\<lambda>c. c = ch CHR ''0'') (rev x)) \<noteq> ch CHR ''0''"
    using hd_dropWhile[of "\<lambda>c. c = ch CHR ''0''" "rev x"] by simp
  then show ?thesis using d by (simp add: trimZeros_def last_rev)
qed

lemma count_trimZeros: "count_list (trimZeros x) (ch CHR ''.'') = count_list x (ch CHR ''.'')"
proof -
  obtain k where k: "x = trimZeros x @ replicate k (ch CHR ''0'')" using trimZeros_decomp by blast
  have "count_list (replicate k (ch CHR ''0'')) (ch CHR ''.'') = 0"
    using dot_not_zero by (induction k) auto
  then show ?thesis using k by (metis add.right_neutral count_list_append)
qed

lemma dot_in_trimZeros: "ch CHR ''.'' \<in> set (trimZeros x) \<longleftrightarrow> ch CHR ''.'' \<in> set x"
proof -
  obtain k where k: "x = trimZeros x @ replicate k (ch CHR ''0'')" using trimZeros_decomp by blast
  have "ch CHR ''.'' \<in> set x \<longleftrightarrow> ch CHR ''.'' \<in> set (trimZeros x) \<or> ch CHR ''.'' \<in> set (replicate k (ch CHR ''0''))"
    by (subst k) simp
  then show ?thesis using dot_not_zero by auto
qed

lemma butlast_no_dot:
  assumes "count_list x (ch CHR ''.'') \<le> 1" and "trimZeros x \<noteq> []"
    and "last (trimZeros x) = ch CHR ''.''"
  shows "ch CHR ''.'' \<notin> set (butlast (trimZeros x))"
proof -
  obtain b where b: "trimZeros x = b @ [ch CHR ''.'']"
    using assms(2,3) by (metis append_butlast_last_id)
  have "count_list (b @ [ch CHR ''.'']) (ch CHR ''.'') = count_list b (ch CHR ''.'') + 1"
    by simp
  with assms(1) have "count_list b (ch CHR ''.'') = 0"
    using count_trimZeros[of x] by (simp add: b)
  then show ?thesis by (simp add: b count_list_0_iff)
qed

lemma formatPrice_eq:
  "formatPrice x =
     (if ch CHR ''.'' \<notin> set x then x @ js ''.0''
      else if last (trimZeros x) = ch CHR ''.''
           then (if trimZeros x = x then x else trimZeros x @ [ch CHR ''0''])
      else trimZeros x)"
proof (cases "ch CHR ''.'' \<in> set x")
  case False
  then show ?thesis
    by (simp add: formatPrice_def includes_ch_def)
next
  case True
  note w = lastNonZero_whole[OF True]
  define i where "i = lastNonZero x (length x - 1)"
  obtain k where k: "x = trimZeros x @ replicate k (ch CHR ''0'')" using trimZeros_decomp by blast
  have len: "length (trimZeros x) = Suc i"
    using w(1)[symmetric] w(2) by (simp add: i_def)
  have "take (i + 2) x = (if trimZeros x = x then x else trimZeros x @ [ch CHR ''0''])"
  proof (cases k)
    case 0
    with k have "trimZeros x = x" by simp
    with len show ?thesis by simp
  next
    case (Suc k')
    have ne: "trimZeros x \<noteq> x" using k Suc
      by (metis append_self_conv replicate_empty nat.distinct(1))
    have "take (i + 2) (trimZeros x @ replicate k (ch CHR ''0'')) = trimZeros x @ [ch CHR ''0'']"
      using len Suc by simp
    with k ne show ?thesis by simp
  qed
  with True w show ?thesis
    by (simp add: formatPrice_def includes_ch_def slice_def Let_def i_def)
qed

lemma formatPrice_idem: "formatPrice (formatPrice x) = formatPrice x"
proof (cases "ch CHR ''.'' \<in> set x")
  case False
  have t: "trimZeros (x @ js ''.0'') = x @ [ch CHR ''.'']"
    using dot_not_zero trimZeros_snoc[of "x @ [ch CHR ''.'']" "ch CHR ''0''"]
      trimZeros_snoc[of x "ch CHR ''.''"] by (simp add: js_def)
  have "formatPrice (x @ js ''.0'') = x @ js ''.0''"
    by (subst formatPrice_eq) (simp add: t, simp add: js_def)
  with False show ?thesis by (simp add: formatPrice_eq[of x])
next
  case True
  note w = lastNonZero_whole[OF True]
  show ?thesis
  proof (cases "last (trimZeros x) = ch CHR ''.''")
    case dot: True
    show ?thesis
    proof (cases "trimZeros x = x")
      case True
      with dot \<open>ch CHR ''.'' \<in> set x\<close> have "formatPrice x = x" by (simp add: formatPrice_eq[of x])
      then show ?thesis by simp
    next
      case False
      with dot True have fx: "formatPrice x = trimZeros x @ [ch CHR ''0'']"
        by (simp add: formatPrice_eq[of x])
      have t: "trimZeros (trimZeros x @ [ch CHR ''0'']) = trimZeros x"
        by (simp add: trimZeros_snoc trimZeros_idem)
      have "formatPrice (trimZeros x @ [ch CHR ''0'']) = trimZeros x @ [ch CHR ''0'']"
        using dot True w(4) by (subst formatPrice_eq) (simp add: t dot_in_trimZeros)
      with fx show ?thesis by simp
    qed
  next
    case False
    with True have fx: "formatPrice x = trimZeros x" by (simp add: formatPrice_eq[of x])
    have "formatPrice (trimZeros x) = trimZeros x"
      using False True by (subst formatPrice_eq) (simp add: trimZeros_idem dot_in_trimZeros)
    with fx show ?thesis by simp
  qed
qed

lemma strip_idem_one_dot:
  assumes "count_list x (ch CHR ''.'') \<le> 1"
  shows "stripTrailingZeros (stripTrailingZeros x) = stripTrailingZeros x"
proof (cases "ch CHR ''.'' \<in> set x")
  case False
  then show ?thesis by (simp add: stripTrailingZeros_eq)
next
  case True
  note w = lastNonZero_whole[OF True]
  show ?thesis
  proof (cases "last (trimZeros x) = ch CHR ''.''")
    case dot: True
    with True have sx: "stripTrailingZeros x = butlast (trimZeros x)"
      by (simp add: stripTrailingZeros_eq[of x])
    have "ch CHR ''.'' \<notin> set (butlast (trimZeros x))"
      using butlast_no_dot[OF assms w(4) dot] .
    then show ?thesis by (simp add: sx stripTrailingZeros_eq[of "butlast (trimZeros x)"])
  next
    case False
    with True have sx: "stripTrailingZeros x = trimZeros x"
      by (simp add: stripTrailingZeros_eq[of x])
    have "stripTrailingZeros (trimZeros x) = trimZeros x"
      using False by (subst stripTrailingZeros_eq) (simp add: trimZeros_idem)
    with sx show ?thesis by simp
  qed
qed

lemma strip_not_endsInPoint:
  assumes "count_list x (ch CHR ''.'') \<le> 1"
  shows "\<not> endsInPoint (stripTrailingZeros x)"
proof (cases "ch CHR ''.'' \<in> set x")
  case False
  then have "stripTrailingZeros x = x" by (simp add: stripTrailingZeros_eq)
  then show ?thesis
    unfolding endsInPoint_def using False by (metis last_in_set)
next
  case True
  note w = lastNonZero_whole[OF True]
  show ?thesis
  proof (cases "last (trimZeros x) = ch CHR ''.''")
    case dot: True
    with True have sx: "stripTrailingZeros x = butlast (trimZeros x)"
      by (simp add: stripTrailingZeros_eq[of x])
    have "ch CHR ''.'' \<notin> set (butlast (trimZeros x))"
      using butlast_no_dot[OF assms w(4) dot] .
    then show ?thesis
      unfolding sx endsInPoint_def by (metis last_in_set)
  next
    case False
    with True have sx: "stripTrailingZeros x = trimZeros x"
      by (simp add: stripTrailingZeros_eq[of x])
    with False show ?thesis by (simp add: endsInPoint_def)
  qed
qed

text \<open>Unfolding these evaluates either canonicaliser on a literal.\<close>

lemmas canonicaliser_defs = stripTrailingZeros_def formatPrice_def includes_ch_def slice_def at_def js_def ch_def

lemma decimal_point_digit:
  "ch CHR ''.'' \<in> set y \<Longrightarrow> \<not> endsInPoint y \<Longrightarrow> decimalChars y \<Longrightarrow> pointThenDigit y"
proof (induction y rule: pointThenDigit.induct)
  case (1 a b rest)
  show ?case
  proof (cases "a = ch CHR ''.'' \<and> isDigit b")
    case True
    then show ?thesis by simp
  next
    case False
    have "ch CHR ''.'' \<in> set (b # rest)"
      using "1.prems" False by (auto simp: decimalChars_def)
    moreover have "\<not> endsInPoint (b # rest)"
      using "1.prems"(2) by (simp add: endsInPoint_def)
    moreover have "decimalChars (b # rest)"
      using "1.prems"(3) by (simp add: decimalChars_def)
    ultimately have "pointThenDigit (b # rest)" using "1.IH" by blast
    then show ?thesis by simp
  qed
qed (auto simp: endsInPoint_def)

lemma decimalChars_trimZeros: "decimalChars x \<Longrightarrow> decimalChars (trimZeros x)"
proof -
  assume d: "decimalChars x"
  obtain k where k: "x = trimZeros x @ replicate k (ch CHR ''0'')"
    using trimZeros_decomp by blast
  from d have "decimalChars (trimZeros x @ replicate k (ch CHR ''0''))"
    using k by simp
  then show ?thesis by (simp add: decimalChars_def)
qed

lemma isDigit_zero: "isDigit (ch CHR ''0'')"
  by (simp add: isDigit_def ch_def)

lemma formatPrice_decimalChars: "decimalChars x \<Longrightarrow> decimalChars (formatPrice x)"
  using decimalChars_trimZeros[of x] isDigit_zero
  by (auto simp: formatPrice_eq decimalChars_def js_def)

lemma formatPrice_has_dot: "ch CHR ''.'' \<in> set (formatPrice x)"
  using dot_in_trimZeros[of x] by (auto simp: formatPrice_eq js_def)

lemma formatPrice_endsInPoint: "endsInPoint (formatPrice x) \<longleftrightarrow> endsInPoint x"
proof (cases "ch CHR ''.'' \<in> set x")
  case False
  then have "\<not> endsInPoint x"
    unfolding endsInPoint_def by (metis last_in_set)
  moreover have "\<not> endsInPoint (formatPrice x)"
    using False dot_not_zero by (simp add: formatPrice_eq js_def endsInPoint_def)
  ultimately show ?thesis by simp
next
  case True
  note w = lastNonZero_whole[OF True]
  have nz: "last (trimZeros x) \<noteq> ch CHR ''0''" using trimZeros_last w(4) by blast
  show ?thesis
  proof (cases "trimZeros x = x")
    case eq: True
    with True show ?thesis by (simp add: formatPrice_eq)
  next
    case False
    obtain k where k: "x = trimZeros x @ replicate k (ch CHR ''0'')"
      using trimZeros_decomp by blast
    have "k \<noteq> 0"
    proof
      assume "k = 0"
      with k have "x = trimZeros x" by simp
      with False show False by simp
    qed
    then have "last x = ch CHR ''0''" by (subst k) simp
    then have "\<not> endsInPoint x" using dot_not_zero by (simp add: endsInPoint_def)
    moreover have "\<not> endsInPoint (formatPrice x)"
      using True False w(4) dot_not_zero by (simp add: formatPrice_eq endsInPoint_def)
    ultimately show ?thesis by simp
  qed
qed

section \<open>Claims about the canonicalisers\<close>

text \<open>
  Claim C6, as amended. For every input string: an input with no point gets \<open>.0\<close>
  appended; an input with a point that does not end in a point has its trailing zeros
  stripped, and where that reaches the point exactly one zero is kept after it; for an
  input that does not end in a point the result contains a point and does not end in one,
  and for an input of decimal digits and points that does not end in a point the result
  has a point with a digit right after it. The five literal examples hold.
\<close>

theorem formatPrice_rule:
  "(ch CHR ''.'' \<notin> set x \<longrightarrow> formatPrice x = x @ js ''.0'')
   \<and> (ch CHR ''.'' \<in> set x \<and> \<not> endsInPoint x \<longrightarrow>
        formatPrice x = (if last (trimZeros x) = ch CHR ''.''
                         then trimZeros x @ js ''0'' else trimZeros x))
   \<and> (\<not> endsInPoint x \<longrightarrow>
        ch CHR ''.'' \<in> set (formatPrice x) \<and> \<not> endsInPoint (formatPrice x))
   \<and> (decimalChars x \<and> \<not> endsInPoint x \<longrightarrow> pointThenDigit (formatPrice x))
   \<and> formatPrice (js ''22'') = js ''22.0''
   \<and> formatPrice (js ''22.00'') = js ''22.0''
   \<and> formatPrice (js ''15.340000'') = js ''15.34''
   \<and> formatPrice (js ''23.00450067'') = js ''23.00450067''
   \<and> formatPrice (js ''1.000000'') = js ''1.0''"
proof -
  have a: "ch CHR ''.'' \<notin> set x \<longrightarrow> formatPrice x = x @ js ''.0''"
    by (simp add: formatPrice_eq)
  have b: "ch CHR ''.'' \<in> set x \<and> \<not> endsInPoint x \<longrightarrow>
        formatPrice x = (if last (trimZeros x) = ch CHR ''.''
                         then trimZeros x @ js ''0'' else trimZeros x)"
  proof (intro impI, elim conjE)
    assume d: "ch CHR ''.'' \<in> set x" and e: "\<not> endsInPoint x"
    note w = lastNonZero_whole[OF d]
    have "last (trimZeros x) = ch CHR ''.'' \<Longrightarrow> trimZeros x \<noteq> x"
      using e d by (auto simp: endsInPoint_def)
    with d show "formatPrice x = (if last (trimZeros x) = ch CHR ''.''
                         then trimZeros x @ js ''0'' else trimZeros x)"
      by (simp add: formatPrice_eq js_def)
  qed
  have c: "\<not> endsInPoint x \<longrightarrow>
        ch CHR ''.'' \<in> set (formatPrice x) \<and> \<not> endsInPoint (formatPrice x)"
    by (simp add: formatPrice_has_dot formatPrice_endsInPoint)
  have d: "decimalChars x \<and> \<not> endsInPoint x \<longrightarrow> pointThenDigit (formatPrice x)"
    using decimal_point_digit[OF formatPrice_has_dot, of x]
    by (simp add: formatPrice_endsInPoint formatPrice_decimalChars)
  have e1: "formatPrice (js ''22'') = js ''22.0''" by (simp add: canonicaliser_defs)
  have e2: "formatPrice (js ''22.00'') = js ''22.0''" by (simp add: canonicaliser_defs)
  have e3: "formatPrice (js ''15.340000'') = js ''15.34''" by (simp add: canonicaliser_defs)
  have e4: "formatPrice (js ''23.00450067'') = js ''23.00450067''" by (simp add: canonicaliser_defs)
  have e5: "formatPrice (js ''1.000000'') = js ''1.0''" by (simp add: canonicaliser_defs)
  from a b c d e1 e2 e3 e4 e5 show ?thesis by blast
qed

theorem formatPrice_rule_witness:
  "ch CHR ''.'' \<in> set (js ''22.00'') \<and> decimalChars (js ''22.00'')
   \<and> \<not> endsInPoint (js ''22.00'')
   \<and> ch CHR ''.'' \<notin> set (js ''22'')
   \<and> formatPrice (js ''22.00'') = trimZeros (js ''22.00'') @ js ''0''
   \<and> pointThenDigit (formatPrice (js ''22.00''))
   \<and> formatPrice (js ''22'') = js ''22'' @ js ''.0''"
proof -
  have h1: "ch CHR ''.'' \<in> set (js ''22.00'')" by (simp add: js_def ch_def)
  have h2: "decimalChars (js ''22.00'')" by (simp add: decimalChars_def isDigit_def js_def ch_def)
  have h3: "\<not> endsInPoint (js ''22.00'')" by (simp add: endsInPoint_def js_def ch_def)
  have h4: "ch CHR ''.'' \<notin> set (js ''22'')" by (simp add: js_def ch_def)
  have h5: "last (trimZeros (js ''22.00'')) = ch CHR ''.''"
    by (simp add: trimZeros_def js_def ch_def)
  from formatPrice_rule[of "js ''22.00''"] h1 h2 h3
  have r: "formatPrice (js ''22.00'') =
      (if last (trimZeros (js ''22.00'')) = ch CHR ''.''
       then trimZeros (js ''22.00'') @ js ''0'' else trimZeros (js ''22.00''))"
    and "pointThenDigit (formatPrice (js ''22.00''))" by blast+
  from r h5 have "formatPrice (js ''22.00'') = trimZeros (js ''22.00'') @ js ''0''"
    by (simp only: simp_thms if_True)
  moreover note \<open>pointThenDigit (formatPrice (js ''22.00''))\<close>
  moreover from formatPrice_rule[of "js ''22''"] h4
  have "formatPrice (js ''22'') = js ''22'' @ js ''.0''" by blast
  ultimately show ?thesis using h1 h2 h3 h4 by blast
qed

text \<open>
  The claim as it was stated, for every input string, fails in two ways: an input that
  ends in a point comes back unchanged, with no digit after the point, and the characters
  after the point are not checked to be digits.
\<close>

theorem formatPrice_counterexample:
  "formatPrice (js ''22.'') = js ''22.'' \<and> \<not> pointThenDigit (formatPrice (js ''22.''))
   \<and> formatPrice (js ''1.x'') = js ''1.x'' \<and> \<not> pointThenDigit (formatPrice (js ''1.x''))"
proof -
  have a: "formatPrice (js ''22.'') = js ''22.''" by (simp add: canonicaliser_defs)
  have b: "formatPrice (js ''1.x'') = js ''1.x''" by (simp add: canonicaliser_defs)
  have "\<not> pointThenDigit (js ''22.'')" "\<not> pointThenDigit (js ''1.x'')"
    by (simp_all add: js_def ch_def isDigit_def)
  with a b show ?thesis by simp
qed

text \<open>
  Claim C7, as amended. For every input string, \<open>stripTrailingZeros\<close> returns the
  input unchanged when it contains no point, and otherwise removes the maximal run of
  trailing zeros and, if that leaves a point as the last character, removes that point as
  well; the result does not end in a point when the input contains at most one point.
  The four literal examples hold.
\<close>

theorem stripTrailingZeros_rule:
  "stripTrailingZeros x =
     (if ch CHR ''.'' \<notin> set x then x
      else if last (trimZeros x) = ch CHR ''.'' then butlast (trimZeros x)
      else trimZeros x)
   \<and> (count_list x (ch CHR ''.'') \<le> 1 \<longrightarrow> \<not> endsInPoint (stripTrailingZeros x))
   \<and> stripTrailingZeros (js ''10.50'') = js ''10.5''
   \<and> stripTrailingZeros (js ''10.0'') = js ''10''
   \<and> stripTrailingZeros (js ''10'') = js ''10''
   \<and> stripTrailingZeros (js ''1.000000'') = js ''1''"
proof -
  have e1: "stripTrailingZeros (js ''10.50'') = js ''10.5''" by (simp add: canonicaliser_defs)
  have e2: "stripTrailingZeros (js ''10.0'') = js ''10''" by (simp add: canonicaliser_defs)
  have e3: "stripTrailingZeros (js ''10'') = js ''10''" by (simp add: canonicaliser_defs)
  have e4: "stripTrailingZeros (js ''1.000000'') = js ''1''" by (simp add: canonicaliser_defs)
  from stripTrailingZeros_eq[of x] strip_not_endsInPoint[of x] e1 e2 e3 e4
  show ?thesis by blast
qed

theorem stripTrailingZeros_rule_witness:
  "count_list (js ''10.0'') (ch CHR ''.'') \<le> 1
   \<and> \<not> endsInPoint (stripTrailingZeros (js ''10.0''))"
proof -
  have h: "count_list (js ''10.0'') (ch CHR ''.'') \<le> 1"
    by (simp add: js_def ch_def)
  with stripTrailingZeros_rule[of "js ''10.0''"] show ?thesis by blast
qed

text \<open>
  With two points in a row the result does end in a point: only one of them is removed.
\<close>

theorem stripTrailingZeros_counterexample:
  "stripTrailingZeros (js ''1..0'') = js ''1.''
   \<and> endsInPoint (stripTrailingZeros (js ''1..0''))"
proof -
  have a: "stripTrailingZeros (js ''1..0'') = js ''1.''" by (simp add: canonicaliser_defs)
  have "endsInPoint (js ''1.'')" by (simp add: endsInPoint_def js_def)
  with a show ?thesis by simp
qed

text \<open>
  Claim C8, as amended. \<open>formatPrice\<close> is idempotent on every string, and
  \<open>stripTrailingZeros\<close> is idempotent on every string with at most one point.
\<close>

theorem canonicalisers_idempotent:
  "(count_list x (ch CHR ''.'') \<le> 1 \<longrightarrow>
      stripTrailingZeros (stripTrailingZeros x) = stripTrailingZeros x)
   \<and> formatPrice (formatPrice x) = formatPrice x"
  using strip_idem_one_dot[of x] formatPrice_idem[of x] by blast

theorem canonicalisers_idempotent_witness:
  "count_list (js ''10.50'') (ch CHR ''.'') \<le> 1
   \<and> stripTrailingZeros (stripTrailingZeros (js ''10.50'')) = stripTrailingZeros (js ''10.50'')"
proof -
  have h: "count_list (js ''10.50'') (ch CHR ''.'') \<le> 1"
    by (simp add: js_def ch_def)
  with canonicalisers_idempotent[of "js ''10.50''"] show ?thesis by blast
qed

text \<open>
  On \<open>1.0.\<close> a second application strips what the first one uncovered.
\<close>

theorem stripTrailingZeros_idempotent_counterexample:
  "stripTrailingZeros (js ''1.0.'') = js ''1.0''
   \<and> stripTrailingZeros (stripTrailingZeros (js ''1.0.'')) = js ''1''
   \<and> stripTrailingZeros (stripTrailingZeros (js ''1.0.'')) \<noteq> stripTrailingZeros (js ''1.0.'')"
proof -
  have a: "stripTrailingZeros (js ''1.0.'') = js ''1.0''" by (simp add: canonicaliser_defs)
  have b: "stripTrailingZeros (js ''1.0'') = js ''1''" by (simp add: canonicaliser_defs)
  have "js ''1'' \<noteq> js ''1.0''" by (simp add: js_def)
  with a b show ?thesis by simp
qed

section \<open>Properties of the digest primitive\<close>

lemma fold_or_zero:
  "fold (\<lambda>i (result::32 word). result OR f i) xs r = 0 \<longleftrightarrow> r = 0 \<and> list_all (\<lambda>i. f i = 0) xs"
  by (induction xs arbitrary: r) (auto simp: or_eq_0_iff)

lemma xor_zero_word: "(x::32 word) XOR y = 0 \<longleftrightarrow> x = y"
  by (metis bit.xor_self xor.assoc xor.right_neutral)

lemma ucast_16_32_is_up: "is_up (ucast :: 16 word \<Rightarrow> 32 word)"
  by (simp add: is_up)

lemma ucast_16_32_inj: "(ucast (x::16 word) :: 32 word) = ucast (y::16 word) \<longleftrightarrow> x = y"
proof
  assume "(ucast x :: 32 word) = ucast y"
  then have "uint (ucast x :: 32 word) = uint (ucast y :: 32 word)" by simp
  then have "uint x = uint y" by (simp add: uint_up_ucast[OF ucast_16_32_is_up])
  then show "x = y" by (rule word_uint_eqI)
qed simp

lemma timingSafeEqual_iff: "timingSafeEqual a b \<longleftrightarrow> a = b"
proof (cases "length a = length b")
  case False
  then show ?thesis by (auto simp: timingSafeEqual_def)
next
  case True
  have "timingSafeEqual a b \<longleftrightarrow> list_all (\<lambda>i. a ! i = b ! i) [0..<length a]"
    using True
    by (simp add: timingSafeEqual_def fold_or_zero xor_zero_word charCodeAt_def ucast_16_32_inj)
  also have "\<dots> \<longleftrightarrow> (\<forall>i<length a. a ! i = b ! i)"
    by (auto simp: list_all_iff)
  also have "\<dots> \<longleftrightarrow> a = b"
    using True by (auto intro: nth_equalityI)
  finally show ?thesis .
qed

lemma padStart2_toString16_length: "length (padStart2 (toString16 b)) = 2"
  by (simp add: padStart2_def toString16_def)

lemma toHex_fold:
  "fold (\<lambda>byte hex. hex @ padStart2 (toString16 byte)) bs acc
     = acc @ concat (map (\<lambda>byte. padStart2 (toString16 byte)) bs)"
  by (induction bs arbitrary: acc) simp_all

lemma toHex_concat: "toHex bs = concat (map (\<lambda>byte. padStart2 (toString16 byte)) bs)"
  by (simp add: toHex_def toHex_fold)

lemma toHex_length: "length (toHex bs) = 2 * length bs"
  by (induction bs) (simp_all add: toHex_concat padStart2_toString16_length)

lemma digestBytes_length: "length (digestBytes w) = 32"
  by (simp add: digestBytes_def)

lemma hmacHex_length: "length (hmacHex hmac secret message) = 64"
  by (simp add: hmacHex_def toHex_length digestBytes_length)

lemma hmacHex_nonempty: "hmacHex hmac secret message \<noteq> []"
  using hmacHex_length[of hmac secret message] by auto

text \<open>The key data is empty exactly for the empty secret key.\<close>

lemma utf8_nonempty: "utf8 cp \<noteq> []"
  by (simp add: utf8_def)

lemma encode_Nil_iff: "encode s = [] \<longleftrightarrow> s = []"
proof (cases s rule: codePoints.cases)
  case 1
  then show ?thesis by (simp add: encode_def)
next
  case (2 u)
  then show ?thesis by (simp add: encode_def utf8_nonempty)
next
  case (3 u v rest)
  then show ?thesis by (simp add: encode_def utf8_nonempty)
qed

lemma hmacSha256Hex_eq:
  "hmacSha256Hex hmac secret message log =
     (if secret = [] then (Inl DataError, log)
      else (Inr (hmacHex hmac secret message), log @ [(encode secret, encode message)]))"
  by (simp add: hmacSha256Hex_def importKey_def encode_Nil_iff hmacHex_def Let_def)

lemma verify_eq:
  "verify hmac secretKey message sig log =
     (if secretKey = [] then (Inl DataError, log)
      else (Inr (hmacHex hmac secretKey message = sig),
            log @ [(encode secretKey, encode message)]))"
  by (simp add: verify_def hmacSha256Hex_eq timingSafeEqual_iff)

lemma hexDigit_byte: "n < 16 \<Longrightarrow> hexDigit n \<le> 0xFF"
proof -
  assume n: "n < 16"
  have "list_all (\<lambda>c. c \<le> 0xFF) (js ''0123456789abcdef'')"
    by (simp add: js_def ch_def)
  moreover have "n < length (js ''0123456789abcdef'')"
    using n by (simp add: js_def)
  ultimately show ?thesis
    unfolding hexDigit_def list_all_length by blast
qed

lemma isByteString_append: "isByteString (a @ b) \<longleftrightarrow> isByteString a \<and> isByteString b"
  by (simp add: isByteString_def)

lemma toHex_isByteString: "isByteString (toHex bs)"
proof (induction bs)
  case Nil
  then show ?case by (simp add: toHex_concat isByteString_def)
next
  case (Cons b bs)
  have "unat b < 2 ^ 8" using unsigned_less[of b, where 'a = nat] by simp
  then have "unat b div 16 < 16" by simp
  then have "isByteString (padStart2 (toString16 b))"
    by (auto simp: isByteString_def padStart2_def toString16_def hexDigit_byte ch_def)
  with Cons show ?case by (simp add: toHex_concat isByteString_def)
qed

section \<open>The platform functions on known values\<close>

text \<open>
  The models of the encoder, of \<open>btoa\<close> and of the hex rendering give the standard
  values: UTF-8 of one to four bytes, U+FFFD for an unpaired surrogate, and the Base64
  test vectors of RFC 4648.
\<close>

lemma encode_examples:
  "encode (js ''abc'') = [0x61, 0x62, 0x63]"
  "encode [0xE9] = [0xC3, 0xA9]"
  "encode [0x20AC] = [0xE2, 0x82, 0xAC]"
  "encode [0xD83D, 0xDE00] = [0xF0, 0x9F, 0x98, 0x80]"
  "encode [0xD800] = [0xEF, 0xBF, 0xBD]"
  "encode [0xDC00] = [0xEF, 0xBF, 0xBD]"
  by (simp_all add: encode_def utf8_def scalar_def isHighSurrogate_def isLowSurrogate_def
      js_def ch_def)

lemma base64_examples:
  "base64 (map ucast (js ''f'')) = js ''Zg==''"
  "base64 (map ucast (js ''fo'')) = js ''Zm8=''"
  "base64 (map ucast (js ''foo'')) = js ''Zm9v''"
  "base64 (map ucast (js ''foobar'')) = js ''Zm9vYmFy''"
  by (simp_all add: js_def ch_def b64char_def)

lemma btoa_examples:
  "btoa (js ''foob'') = Inr (js ''Zm9vYg=='')"
  "btoa [0x20AC] = Inl InvalidCharacterError"
  by (simp_all add: btoa_def isByteString_def js_def ch_def b64char_def)

lemma toHex_example: "toHex [0x01, 0xAB, 0x00, 0xFF] = js ''01ab00ff''"
  by (simp add: toHex_def padStart2_def toString16_def hexDigit_def js_def ch_def)

lemma timingSafeEqual_examples:
  "timingSafeEqual (js ''abc'') (js ''abc'')"
  "\<not> timingSafeEqual (js ''abc'') (js ''abd'')"
  "\<not> timingSafeEqual (js ''abc'') (js ''abcd'')"
  "timingSafeEqual [] []"
  by (simp_all add: timingSafeEqual_def charCodeAt_def js_def ch_def upt_rec)

section \<open>Response signatures: the payment family\<close>

lemma joinParams_payment:
  "joinParams render [Str a, Str b, optional c, optional d, Num p, Num q] [4, 5] =
     join (js '':'')
       [a, b, (case c of None \<Rightarrow> [] | Some s \<Rightarrow> s), (case d of None \<Rightarrow> [] | Some s \<Rightarrow> s),
        stripTrailingZeros (render p), stripTrailingZeros (render q)]"
  by (simp add: joinParams_def enumerate_eq_zip upt_rec optional_def split: option.split)

lemma joinParams_nullish:
  "joinParams render [Str a, Str b, Null, Undefined, Num p, Num q] [4, 5] =
     join (js '':'') [a, b, [], [], stripTrailingZeros (render p), stripTrailingZeros (render q)]"
  by (simp add: joinParams_def enumerate_eq_zip upt_rec)

lemma verifyPaymentSignature_eq:
  "verifyPaymentSignature hmac render secretKey r log =
     (if secretKey = [] then (Inl DataError, log)
      else (Inr (hmacHex hmac secretKey (paymentMessage render r) = signature r),
            log @ [(encode secretKey, encode (paymentMessage render r))]))"
  by (simp add: verifyPaymentSignature_def joinParams_payment verify_eq Let_def
      paymentMessage_def)

lemma strip_10_5: "stripTrailingZeros (js ''10.5'') = js ''10.5''"
  by (simp add: canonicaliser_defs)

lemma payment_example_message:
  "join (js '':'') [js ''22416032'', js ''TRY'', js ''basketId'', js ''conversationId'',
      js ''10.5'', js ''10.5''] = js ''22416032:TRY:basketId:conversationId:10.5:10.5''"
  by (simp add: js_def)

lemma update_differs: "i < length s \<Longrightarrow> c \<noteq> s ! i \<Longrightarrow> s[i := c] \<noteq> s"
  by (metis nth_list_update_eq)

text \<open>
  Claim C1, as amended. For every secret key that is not empty and every payment,
  pre-auth, post-auth or 3DS-auth response, \<open>verifyPaymentSignature\<close> joins
  \<open>paymentId\<close>, \<open>currency\<close>, \<open>basketId\<close>, \<open>conversationId\<close>,
  \<open>stripTrailingZeros(paidPrice)\<close> and \<open>stripTrailingZeros(price)\<close> with a colon, an
  absent or null \<open>basketId\<close> or \<open>conversationId\<close> giving the empty string, computes
  one digest, and returns true exactly when the hex digest of that message under the
  secret key equals the signature of the response. For the documented example the message
  is \<open>22416032:TRY:basketId:conversationId:10.5:10.5\<close>, its digest verifies, and the
  digest with any one character changed does not. With the empty secret key the key
  import throws \<open>DataError\<close> and no digest is computed.
\<close>

theorem verifyPaymentSignature_canonical:
  "verifyPaymentSignature hmac render secretKey r log =
     (if secretKey = [] then (Inl DataError, log)
      else (Inr (hmacHex hmac secretKey (paymentMessage render r) = signature r),
            log @ [(encode secretKey, encode (paymentMessage render r))]))
   \<and> verifyThreeDSAuthSignature hmac render secretKey r log =
       verifyPaymentSignature hmac render secretKey r log
   \<and> joinParams render [Str a, Str b, Null, Undefined, Num p, Num q] [4, 5] =
       join (js '':'') [a, b, [], [], stripTrailingZeros (render p), stripTrailingZeros (render q)]
   \<and> (paymentId r = js ''22416032'' \<and> currency r = js ''TRY''
        \<and> basketId r = Some (js ''basketId'') \<and> conversationId r = Some (js ''conversationId'')
        \<and> render (paidPrice r) = js ''10.5'' \<and> render (price r) = js ''10.5''
        \<and> secretKey \<noteq> []
      \<longrightarrow>
        paymentMessage render r = js ''22416032:TRY:basketId:conversationId:10.5:10.5''
        \<and> fst (verifyPaymentSignature hmac render secretKey
                 (r\<lparr>signature :=
                      hmacHex hmac secretKey
                        (js ''22416032:TRY:basketId:conversationId:10.5:10.5'')\<rparr>) log)
            = Inr True
        \<and> (\<forall>i c. i < 64 \<and>
                   c \<noteq> hmacHex hmac secretKey
                         (js ''22416032:TRY:basketId:conversationId:10.5:10.5'') ! i
              \<longrightarrow>
                fst (verifyPaymentSignature hmac render secretKey
                       (r\<lparr>signature :=
                            (hmacHex hmac secretKey
                               (js ''22416032:TRY:basketId:conversationId:10.5:10.5''))
                            [i := c]\<rparr>) log)
                = Inr False))"
proof -
  let ?m = "js ''22416032:TRY:basketId:conversationId:10.5:10.5''"
  have b: "verifyThreeDSAuthSignature hmac render secretKey r log =
       verifyPaymentSignature hmac render secretKey r log"
    by (simp add: verifyThreeDSAuthSignature_def)
  have c: "paymentMessage render r = ?m"
    and d: "fst (verifyPaymentSignature hmac render secretKey
                 (r\<lparr>signature := hmacHex hmac secretKey ?m\<rparr>) log) = Inr True"
    and e: "\<forall>i c. i < 64 \<and> c \<noteq> hmacHex hmac secretKey ?m ! i \<longrightarrow>
                fst (verifyPaymentSignature hmac render secretKey
                       (r\<lparr>signature := (hmacHex hmac secretKey ?m)[i := c]\<rparr>) log)
                = Inr False"
    if h: "paymentId r = js ''22416032'' \<and> currency r = js ''TRY''
        \<and> basketId r = Some (js ''basketId'') \<and> conversationId r = Some (js ''conversationId'')
        \<and> render (paidPrice r) = js ''10.5'' \<and> render (price r) = js ''10.5''
        \<and> secretKey \<noteq> []"
  proof -
    from h have k: "secretKey \<noteq> []" by simp
    show msg: "paymentMessage render r = ?m"
      using h payment_example_message by (simp add: paymentMessage_def strip_10_5)
    then have upd: "paymentMessage render (r\<lparr>signature := s\<rparr>) = ?m" for s
      by (simp add: paymentMessage_def)
    show "fst (verifyPaymentSignature hmac render secretKey
                 (r\<lparr>signature := hmacHex hmac secretKey ?m\<rparr>) log) = Inr True"
      using k by (simp add: verifyPaymentSignature_eq upd)
    show "\<forall>i c. i < 64 \<and> c \<noteq> hmacHex hmac secretKey ?m ! i \<longrightarrow>
                fst (verifyPaymentSignature hmac render secretKey
                       (r\<lparr>signature := (hmacHex hmac secretKey ?m)[i := c]\<rparr>) log)
                = Inr False"
    proof (intro allI impI, elim conjE)
      fix i c
      assume "i < 64" and "c \<noteq> hmacHex hmac secretKey ?m ! i"
      then have "(hmacHex hmac secretKey ?m)[i := c] \<noteq> hmacHex hmac secretKey ?m"
        using update_differs[of i "hmacHex hmac secretKey ?m" c] by (simp add: hmacHex_length)
      then have "hmacHex hmac secretKey ?m \<noteq> (hmacHex hmac secretKey ?m)[i := c]"
        by (rule not_sym)
      then show "fst (verifyPaymentSignature hmac render secretKey
                       (r\<lparr>signature := (hmacHex hmac secretKey ?m)[i := c]\<rparr>) log)
                = Inr False"
        using k by (simp add: verifyPaymentSignature_eq upd)
    qed
  qed
  from b c d e verifyPaymentSignature_eq[of hmac render secretKey r log]
    joinParams_nullish[of render a b p q]
  show ?thesis by blast
qed

lemma hmacHex_zero: "hmacHex (\<lambda>k m. 0) secret message ! 0 = ch CHR ''0''"
  by (simp add: hmacHex_def digestBytes_def toHex_concat padStart2_def toString16_def
      hexDigit_def js_def upt_rec)

theorem verifyPaymentSignature_canonical_witness:
  "(let r = \<lparr>paymentId = js ''22416032'', currency = js ''TRY'',
              basketId = Some (js ''basketId''), conversationId = Some (js ''conversationId''),
              paidPrice = js ''10.5'', price = js ''10.5'', signature = []\<rparr>;
        m = js ''22416032:TRY:basketId:conversationId:10.5:10.5'';
        s = hmacHex (\<lambda>k m. 0) (js ''secret'') m
    in js ''secret'' \<noteq> [] \<and> (0::nat) < 64 \<and> ch CHR ''1'' \<noteq> s ! 0
       \<and> paymentMessage (\<lambda>n. n) r = m
       \<and> fst (verifyPaymentSignature (\<lambda>k m. 0) (\<lambda>n. n) (js ''secret'')
                (r\<lparr>signature := s\<rparr>) []) = Inr True
       \<and> fst (verifyPaymentSignature (\<lambda>k m. 0) (\<lambda>n. n) (js ''secret'')
                (r\<lparr>signature := s[0 := ch CHR ''1'']\<rparr>) []) = Inr False)"
proof -
  let ?r = "\<lparr>paymentId = js ''22416032'', currency = js ''TRY'',
              basketId = Some (js ''basketId''), conversationId = Some (js ''conversationId''),
              paidPrice = js ''10.5'', price = js ''10.5'', signature = []\<rparr>"
  let ?m = "js ''22416032:TRY:basketId:conversationId:10.5:10.5''"
  let ?s = "hmacHex (\<lambda>k m. 0) (js ''secret'') ?m"
  have k: "js ''secret'' \<noteq> []" by (simp add: js_def)
  have h: "paymentId ?r = js ''22416032'' \<and> currency ?r = js ''TRY''
        \<and> basketId ?r = Some (js ''basketId'') \<and> conversationId ?r = Some (js ''conversationId'')
        \<and> (\<lambda>n. n) (paidPrice ?r) = js ''10.5'' \<and> (\<lambda>n. n) (price ?r) = js ''10.5''
        \<and> js ''secret'' \<noteq> []"
    using k by simp
  have c: "ch CHR ''1'' \<noteq> ?s ! 0"
    by (simp add: hmacHex_zero ch_def)
  from verifyPaymentSignature_canonical[of "\<lambda>k m. 0" "\<lambda>n. n" "js ''secret''" ?r "[]"] h
  have m: "paymentMessage (\<lambda>n. n) ?r = ?m"
    and t: "fst (verifyPaymentSignature (\<lambda>k m. 0) (\<lambda>n. n) (js ''secret'')
                (?r\<lparr>signature := ?s\<rparr>) []) = Inr True"
    and f: "\<forall>i c. i < 64 \<and> c \<noteq> ?s ! i \<longrightarrow>
          fst (verifyPaymentSignature (\<lambda>k m. 0) (\<lambda>n. n) (js ''secret'')
                  (?r\<lparr>signature := ?s[i := c]\<rparr>) []) = Inr False"
    by blast+
  from f c have "fst (verifyPaymentSignature (\<lambda>k m. 0) (\<lambda>n. n) (js ''secret'')
                  (?r\<lparr>signature := ?s[0 := ch CHR ''1'']\<rparr>) []) = Inr False"
    by (metis zero_less_numeral)
  with m t c k show ?thesis by (simp only: Let_def) simp
qed

text \<open>
  The empty string is a secret key, and for it no boolean is returned: the documented
  response, with any signature, makes \<open>verifyPaymentSignature\<close> throw before a digest
  is computed.
\<close>

theorem verifyPaymentSignature_empty_key_counterexample:
  "\<forall>hmac sig.
     verifyPaymentSignature hmac (\<lambda>n. n) (js '''')
       \<lparr>paymentId = js ''22416032'', currency = js ''TRY'',
         basketId = Some (js ''basketId''), conversationId = Some (js ''conversationId''),
         paidPrice = js ''10.5'', price = js ''10.5'', signature = sig\<rparr> []
     = (Inl DataError, [])"
  by (simp add: verifyPaymentSignature_eq js_def)

section \<open>Webhook signatures\<close>

lemma verifyWebhookSignature_eq:
  "verifyWebhookSignature hmac secretKey payload sig merchantId log =
     (if sig = [] then (Inr False, log)
      else case buildMessage secretKey payload merchantId of
             None \<Rightarrow> (Inr False, log)
           | Some message \<Rightarrow>
               if secretKey = [] then (Inl DataError, log)
               else (Inr (hmacHex hmac secretKey message = sig),
                     log @ [(encode secretKey, encode message)]))"
  by (simp add: verifyWebhookSignature_def hmacSha256Hex_eq timingSafeEqual_iff
      split: option.split)

lemma generateWebhookTestSignature_eq:
  "generateWebhookTestSignature hmac secretKey payload merchantId log =
     (case buildMessage secretKey payload merchantId of
        None \<Rightarrow> (Inr [], log)
      | Some message \<Rightarrow>
          if secretKey = [] then (Inl DataError, log)
          else (Inr (hmacHex hmac secretKey message),
                log @ [(encode secretKey, encode message)]))"
  by (simp add: generateWebhookTestSignature_def hmacSha256Hex_eq split: option.split)

lemma buildMessage_eq:
  "buildMessage secretKey payload merchantId =
     (if hasKey payload ''subscriptionReferenceCode'' then
        (case merchantId of
           None \<Rightarrow> None
         | Some m \<Rightarrow> if m = [] then None else Some (subscriptionMessage m secretKey payload))
      else if hasKey payload ''token'' then Some (hostedPageMessage secretKey payload)
      else Some (directMessage secretKey payload))"
  by (simp add: buildMessage_def subscriptionMessage_def hostedPageMessage_def
      directMessage_def split: option.split)

lemma buildMessage_None_iff:
  "buildMessage secretKey payload merchantId = None \<longleftrightarrow>
     hasKey payload ''subscriptionReferenceCode'' \<and> (merchantId = None \<or> merchantId = Some [])"
  by (auto simp: buildMessage_eq split: option.splits)

lemma buildMessage_subscription:
  "hasKey payload ''subscriptionReferenceCode'' \<Longrightarrow>
   buildMessage secretKey payload merchantId =
     (case merchantId of
        None \<Rightarrow> None
      | Some m \<Rightarrow> if m = [] then None else Some (subscriptionMessage m secretKey payload))"
  by (simp add: buildMessage_eq)

lemma subscriptionMessage_append:
  "subscriptionMessage m secretKey payload = m @ subscriptionMessage [] secretKey payload"
  by (simp add: subscriptionMessage_def)

lemma subscriptionExample_has: "hasKey subscriptionExample ''subscriptionReferenceCode''"
  by (simp add: hasKey_def subscriptionExample_def)

lemma directExample_has:
  "\<not> hasKey directExample ''subscriptionReferenceCode''" "\<not> hasKey directExample ''token''"
  by (simp_all add: hasKey_def directExample_def)

lemma mixedExample_has:
  "hasKey mixedExample ''subscriptionReferenceCode''" "hasKey mixedExample ''token''"
  by (simp_all add: hasKey_def mixedExample_def subscriptionExample_def)

lemma secret_nonempty: "js ''secret'' \<noteq> []"
  by (simp add: js_def)

text \<open>
  Claim C3, as amended. The canonical message of a webhook is a plain concatenation, and
  the rule is chosen by the keys of the payload: with \<open>subscriptionReferenceCode\<close>,
  and a merchant id that is supplied and not empty, it is merchant id, secret key, event
  type, subscription, order and customer reference codes; otherwise with \<open>token\<close> it is
  secret key, event type, \<open>iyziPaymentId\<close>, token, conversation id and status;
  otherwise secret key, event type, \<open>paymentId\<close>, conversation id and status. For a
  subscription payload with no merchant id or an empty one there is no message.
  \<open>verifyWebhookSignature\<close> throws \<open>DataError\<close> when the secret key is empty while
  the signature is not and there is a message; in every other case it returns true
  exactly when there is a message and its hex digest under the secret key equals the
  signature.
\<close>

theorem webhook_message_rule:
  "buildMessage secretKey payload merchantId =
     (if hasKey payload ''subscriptionReferenceCode'' then
        (case merchantId of
           None \<Rightarrow> None
         | Some m \<Rightarrow> if m = [] then None else Some (subscriptionMessage m secretKey payload))
      else if hasKey payload ''token'' then Some (hostedPageMessage secretKey payload)
      else Some (directMessage secretKey payload))
   \<and> fst (verifyWebhookSignature hmac secretKey payload sig merchantId log) =
       (if secretKey = [] \<and> sig \<noteq> [] \<and> buildMessage secretKey payload merchantId \<noteq> None
        then Inl DataError
        else Inr (case buildMessage secretKey payload merchantId of
                    None \<Rightarrow> False
                  | Some message \<Rightarrow> hmacHex hmac secretKey message = sig))"
proof -
  have "fst (verifyWebhookSignature hmac secretKey payload sig merchantId log) =
       (if secretKey = [] \<and> sig \<noteq> [] \<and> buildMessage secretKey payload merchantId \<noteq> None
        then Inl DataError
        else Inr (case buildMessage secretKey payload merchantId of
                    None \<Rightarrow> False
                  | Some message \<Rightarrow> hmacHex hmac secretKey message = sig))"
    using hmacHex_nonempty[of hmac secretKey]
    by (auto simp: verifyWebhookSignature_eq split: option.split)
  with buildMessage_eq[of secretKey payload merchantId] show ?thesis by blast
qed

text \<open>
  With the empty string as merchant id the digest of the concatenation is a signature the
  claim as stated accepts; the guard \<open>!merchantId\<close> rejects it, whatever the digest
  function. And with the empty string as secret key nothing is returned for a direct
  payload and a signature that is not empty.
\<close>

theorem webhook_empty_merchantId_counterexample:
  "\<forall>hmac.
     fst (verifyWebhookSignature hmac (js ''secret'') subscriptionExample
            (hmacHex hmac (js ''secret'')
               (subscriptionMessage (js '''') (js ''secret'') subscriptionExample))
            (Some (js '''')) [])
     = Inr False
     \<and> fst (verifyWebhookSignature hmac (js '''') directExample (js ''abc'') None [])
       = Inl DataError"
  by (simp add: verifyWebhookSignature_eq buildMessage_subscription subscriptionExample_has
      buildMessage_eq directExample_has js_def)

text \<open>
  Claim C4, as amended. \<open>verifyWebhookSignature\<close> returns false without computing a
  hash exactly when the signature is empty, or the payload has a
  \<open>subscriptionReferenceCode\<close> and the merchant id is not supplied or is the empty
  string; in the latter situation, and only then, \<open>generateWebhookTestSignature\<close>
  returns the empty string without computing a hash. Neither function throws in these
  situations. The one other case in which no hash is computed is the empty secret key:
  there the key import throws \<open>DataError\<close>, and that is the only exception of either
  function.
\<close>

theorem webhook_no_hash_cases:
  "(verifyWebhookSignature hmac secretKey payload sig merchantId log = (Inr False, log)) =
     (sig = [] \<or>
      hasKey payload ''subscriptionReferenceCode''
        \<and> (merchantId = None \<or> merchantId = Some []))
   \<and> (snd (verifyWebhookSignature hmac secretKey payload sig merchantId log) = log) =
     (sig = [] \<or>
      hasKey payload ''subscriptionReferenceCode''
        \<and> (merchantId = None \<or> merchantId = Some [])
      \<or> secretKey = [])
   \<and> (generateWebhookTestSignature hmac secretKey payload merchantId log = (Inr [], log)) =
     (hasKey payload ''subscriptionReferenceCode''
        \<and> (merchantId = None \<or> merchantId = Some []))
   \<and> (snd (generateWebhookTestSignature hmac secretKey payload merchantId log) = log) =
     (hasKey payload ''subscriptionReferenceCode''
        \<and> (merchantId = None \<or> merchantId = Some [])
      \<or> secretKey = [])
   \<and> (fst (verifyWebhookSignature hmac secretKey payload sig merchantId log) = Inl e) =
     (e = DataError \<and> secretKey = [] \<and> sig \<noteq> []
      \<and> buildMessage secretKey payload merchantId \<noteq> None)
   \<and> (fst (generateWebhookTestSignature hmac secretKey payload merchantId log) = Inl e) =
     (e = DataError \<and> secretKey = []
      \<and> buildMessage secretKey payload merchantId \<noteq> None)"
proof (cases "buildMessage secretKey payload merchantId")
  case None
  then have "hasKey payload ''subscriptionReferenceCode''
        \<and> (merchantId = None \<or> merchantId = Some [])"
    by (simp add: buildMessage_None_iff)
  with None show ?thesis
    by (simp add: verifyWebhookSignature_eq generateWebhookTestSignature_eq)
next
  case (Some message)
  then have "\<not> (hasKey payload ''subscriptionReferenceCode''
        \<and> (merchantId = None \<or> merchantId = Some []))"
    using buildMessage_None_iff[of secretKey payload merchantId] by simp
  with Some hmacHex_nonempty[of hmac secretKey message] show ?thesis
    by (auto simp: verifyWebhookSignature_eq generateWebhookTestSignature_eq)
qed

text \<open>
  A third situation besides the two of the claim as stated: a signature that is not
  empty, a merchant id that is supplied, and still false with no hash.
\<close>

theorem webhook_no_hash_counterexample:
  "\<forall>hmac.
     verifyWebhookSignature hmac (js ''secret'') subscriptionExample (js ''abc'')
       (Some (js '''')) [] = (Inr False, [])
     \<and> js ''abc'' \<noteq> [] \<and> Some (js '''') \<noteq> (None :: jsstring option)"
  by (simp add: verifyWebhookSignature_eq buildMessage_subscription subscriptionExample_has
      js_def)

text \<open>
  Claim C5, as amended. Whenever \<open>generateWebhookTestSignature\<close> returns a signature
  that is not empty, \<open>verifyWebhookSignature\<close> accepts it for the same secret key,
  payload and merchant id. For a subscription payload, verifying that signature with
  another merchant id returns true exactly when that merchant id is supplied, is not
  empty, and gives a canonical message with the same digest; so it returns false whenever
  the two digests differ.
\<close>

theorem webhook_roundtrip:
  "(fst (generateWebhookTestSignature hmac secretKey payload merchantId log) = Inr s
       \<and> s \<noteq> [] \<longrightarrow>
      fst (verifyWebhookSignature hmac secretKey payload s merchantId log') = Inr True)
   \<and> (hasKey payload ''subscriptionReferenceCode''
       \<and> fst (generateWebhookTestSignature hmac secretKey payload (Some m) log) = Inr s
       \<and> s \<noteq> [] \<longrightarrow>
      fst (verifyWebhookSignature hmac secretKey payload s other log') =
        Inr (case other of
               None \<Rightarrow> False
             | Some m' \<Rightarrow>
                 m' \<noteq> [] \<and>
                 hmacHex hmac secretKey (subscriptionMessage m' secretKey payload)
                 = hmacHex hmac secretKey (subscriptionMessage m secretKey payload)))"
proof (intro conjI impI)
  assume "fst (generateWebhookTestSignature hmac secretKey payload merchantId log) = Inr s
       \<and> s \<noteq> []"
  then show "fst (verifyWebhookSignature hmac secretKey payload s merchantId log') = Inr True"
    by (cases "buildMessage secretKey payload merchantId")
       (auto simp: generateWebhookTestSignature_eq verifyWebhookSignature_eq
          split: if_splits)
next
  assume h: "hasKey payload ''subscriptionReferenceCode''
       \<and> fst (generateWebhookTestSignature hmac secretKey payload (Some m) log) = Inr s
       \<and> s \<noteq> []"
  then have sub: "hasKey payload ''subscriptionReferenceCode''" by simp
  from h have g: "m \<noteq> [] \<and> secretKey \<noteq> []
      \<and> s = hmacHex hmac secretKey (subscriptionMessage m secretKey payload)"
    by (auto simp: generateWebhookTestSignature_eq buildMessage_subscription
        split: if_splits)
  show "fst (verifyWebhookSignature hmac secretKey payload s other log') =
        Inr (case other of
               None \<Rightarrow> False
             | Some m' \<Rightarrow>
                 m' \<noteq> [] \<and>
                 hmacHex hmac secretKey (subscriptionMessage m' secretKey payload)
                 = hmacHex hmac secretKey (subscriptionMessage m secretKey payload))"
    using g hmacHex_nonempty[of hmac secretKey]
    by (simp add: verifyWebhookSignature_eq buildMessage_subscription[OF sub]
        split: option.split)
qed

theorem webhook_roundtrip_witness:
  "hasKey subscriptionExample ''subscriptionReferenceCode''
   \<and> fst (generateWebhookTestSignature (\<lambda>k m. 0) (js ''secret'') subscriptionExample
            (Some (js ''M1'')) [])
       = Inr (hmacHex (\<lambda>k m. 0) (js ''secret'')
                (subscriptionMessage (js ''M1'') (js ''secret'') subscriptionExample))
   \<and> hmacHex (\<lambda>k m. 0) (js ''secret'')
        (subscriptionMessage (js ''M1'') (js ''secret'') subscriptionExample) \<noteq> []
   \<and> fst (verifyWebhookSignature (\<lambda>k m. 0) (js ''secret'') subscriptionExample
            (hmacHex (\<lambda>k m. 0) (js ''secret'')
               (subscriptionMessage (js ''M1'') (js ''secret'') subscriptionExample))
            (Some (js ''M1'')) []) = Inr True
   \<and> fst (verifyWebhookSignature (\<lambda>k m. 0) (js ''secret'') subscriptionExample
            (hmacHex (\<lambda>k m. 0) (js ''secret'')
               (subscriptionMessage (js ''M1'') (js ''secret'') subscriptionExample))
            None []) = Inr False"
proof -
  let ?s = "hmacHex (\<lambda>k m. 0) (js ''secret'')
              (subscriptionMessage (js ''M1'') (js ''secret'') subscriptionExample)"
  have g: "fst (generateWebhookTestSignature (\<lambda>k m. 0) (js ''secret'') subscriptionExample
            (Some (js ''M1'')) []) = Inr ?s"
    by (simp add: generateWebhookTestSignature_eq buildMessage_subscription
        subscriptionExample_has js_def)
  have n: "?s \<noteq> []" by (rule hmacHex_nonempty)
  note t = webhook_roundtrip[of "\<lambda>k m. 0" "js ''secret''" subscriptionExample
      "Some (js ''M1'')" "[]" ?s "[]" "js ''M1''"]
  from t[of None] g n subscriptionExample_has
  have "fst (verifyWebhookSignature (\<lambda>k m. 0) (js ''secret'') subscriptionExample ?s None [])
      = Inr False"
    by simp
  moreover from t[of None] g n
  have "fst (verifyWebhookSignature (\<lambda>k m. 0) (js ''secret'') subscriptionExample ?s
               (Some (js ''M1'')) []) = Inr True"
    by blast
  ultimately show ?thesis using g n subscriptionExample_has by blast
qed

text \<open>
  The digest is taken over the UTF-8 bytes of the message, and the encoder writes every
  unpaired surrogate as U+FFFD: two merchant ids that differ only there give the same
  bytes, hence the same digest under every digest function.
\<close>

lemma codePoints_lone_high:
  "\<not> isLowSurrogate c \<Longrightarrow> codePoints (0xD800 # c # cs) = 0xFFFD # codePoints (c # cs)"
  by (simp add: scalar_def isHighSurrogate_def)

lemma codePoints_lone_low:
  "codePoints (0xDC00 # c # cs) = 0xFFFD # codePoints (c # cs)"
  by (simp add: scalar_def isHighSurrogate_def isLowSurrogate_def)

lemma encode_lone_surrogates:
  "\<not> isLowSurrogate c \<Longrightarrow> encode ([0xD800] @ c # cs) = encode ([0xDC00] @ c # cs)"
  by (simp add: encode_def codePoints_lone_high codePoints_lone_low del: codePoints.simps)

lemma subscriptionExample_lone_surrogates:
  "encode (subscriptionMessage [0xD800] (js ''secret'') subscriptionExample)
   = encode (subscriptionMessage [0xDC00] (js ''secret'') subscriptionExample)"
proof -
  let ?rest = "subscriptionMessage [] (js ''secret'') subscriptionExample"
  have r: "?rest = ch CHR ''s'' # tl ?rest"
    by (simp add: subscriptionMessage_def js_def)
  have "\<not> isLowSurrogate (ch CHR ''s'')"
    by (simp add: isLowSurrogate_def ch_def)
  then have "encode ([0xD800] @ ch CHR ''s'' # tl ?rest)
      = encode ([0xDC00] @ ch CHR ''s'' # tl ?rest)"
    by (rule encode_lone_surrogates)
  then have "encode ([0xD800] @ ?rest) = encode ([0xDC00] @ ?rest)"
    using r by simp
  then show ?thesis
    by (simp only: subscriptionMessage_append[of "[0xD800]"]
        subscriptionMessage_append[of "[0xDC00]"])
qed

text \<open>
  A signature generated with one merchant id that verifies with a different one.
\<close>

theorem webhook_other_merchantId_counterexample:
  "\<forall>hmac.
     [0xD800] \<noteq> ([0xDC00] :: jsstring)
     \<and> fst (generateWebhookTestSignature hmac (js ''secret'') subscriptionExample
              (Some [0xDC00]) [])
         = Inr (hmacHex hmac (js ''secret'')
                  (subscriptionMessage [0xDC00] (js ''secret'') subscriptionExample))
     \<and> hmacHex hmac (js ''secret'')
          (subscriptionMessage [0xDC00] (js ''secret'') subscriptionExample) \<noteq> []
     \<and> fst (verifyWebhookSignature hmac (js ''secret'') subscriptionExample
              (hmacHex hmac (js ''secret'')
                 (subscriptionMessage [0xDC00] (js ''secret'') subscriptionExample))
              (Some [0xD800]) [])
         = Inr True"
proof (intro allI conjI)
  fix hmac :: digest
  show "[0xD800] \<noteq> ([0xDC00] :: jsstring)" by simp
  have h: "hmacHex hmac (js ''secret'')
             (subscriptionMessage [0xD800] (js ''secret'') subscriptionExample)
         = hmacHex hmac (js ''secret'')
             (subscriptionMessage [0xDC00] (js ''secret'') subscriptionExample)"
    unfolding hmacHex_def subscriptionExample_lone_surrogates ..
  show "fst (generateWebhookTestSignature hmac (js ''secret'') subscriptionExample
              (Some [0xDC00]) [])
         = Inr (hmacHex hmac (js ''secret'')
                  (subscriptionMessage [0xDC00] (js ''secret'') subscriptionExample))"
    by (simp add: generateWebhookTestSignature_eq buildMessage_subscription
        subscriptionExample_has secret_nonempty)
  show "hmacHex hmac (js ''secret'')
          (subscriptionMessage [0xDC00] (js ''secret'') subscriptionExample) \<noteq> []"
    by (rule hmacHex_nonempty)
  show "fst (verifyWebhookSignature hmac (js ''secret'') subscriptionExample
              (hmacHex hmac (js ''secret'')
                 (subscriptionMessage [0xDC00] (js ''secret'') subscriptionExample))
              (Some [0xD800]) [])
         = Inr True"
    using h hmacHex_nonempty[of hmac "js ''secret''"]
    by (simp add: verifyWebhookSignature_eq buildMessage_subscription
        subscriptionExample_has secret_nonempty)
qed

text \<open>
  Claim C10. A payload that has both a \<open>subscriptionReferenceCode\<close> and a \<open>token\<close>
  is treated as a subscription payload by \<open>buildMessage\<close>, and so by
  \<open>verifyWebhookSignature\<close> and \<open>generateWebhookTestSignature\<close>: the merchant id is
  required, and the subscription rule gives the message that is hashed (once the key
  import has accepted the secret key).
\<close>

theorem webhook_subscription_precedence:
  "hasKey payload ''subscriptionReferenceCode'' \<and> hasKey payload ''token'' \<longrightarrow>
     buildMessage secretKey payload merchantId =
       (case merchantId of
          None \<Rightarrow> None
        | Some m \<Rightarrow> if m = [] then None else Some (subscriptionMessage m secretKey payload))
     \<and> verifyWebhookSignature hmac secretKey payload sig None log = (Inr False, log)
     \<and> generateWebhookTestSignature hmac secretKey payload None log = (Inr [], log)
     \<and> (m \<noteq> [] \<longrightarrow>
          verifyWebhookSignature hmac secretKey payload sig (Some m) log =
            (if sig = [] then (Inr False, log)
             else if secretKey = [] then (Inl DataError, log)
             else (Inr (hmacHex hmac secretKey (subscriptionMessage m secretKey payload)
                        = sig),
                   log @ [(encode secretKey,
                           encode (subscriptionMessage m secretKey payload))]))
          \<and> generateWebhookTestSignature hmac secretKey payload (Some m) log =
            (if secretKey = [] then (Inl DataError, log)
             else (Inr (hmacHex hmac secretKey (subscriptionMessage m secretKey payload)),
                   log @ [(encode secretKey,
                           encode (subscriptionMessage m secretKey payload))])))"
proof (intro impI, elim conjE)
  assume sub: "hasKey payload ''subscriptionReferenceCode''"
  note b = buildMessage_subscription[OF sub]
  have 1: "buildMessage secretKey payload merchantId =
       (case merchantId of
          None \<Rightarrow> None
        | Some m \<Rightarrow> if m = [] then None else Some (subscriptionMessage m secretKey payload))"
    by (rule b)
  have 2: "verifyWebhookSignature hmac secretKey payload sig None log = (Inr False, log)"
    by (simp add: verifyWebhookSignature_eq b)
  have 3: "generateWebhookTestSignature hmac secretKey payload None log = (Inr [], log)"
    by (simp add: generateWebhookTestSignature_eq b)
  have 4: "m \<noteq> [] \<longrightarrow>
          verifyWebhookSignature hmac secretKey payload sig (Some m) log =
            (if sig = [] then (Inr False, log)
             else if secretKey = [] then (Inl DataError, log)
             else (Inr (hmacHex hmac secretKey (subscriptionMessage m secretKey payload)
                        = sig),
                   log @ [(encode secretKey,
                           encode (subscriptionMessage m secretKey payload))]))
          \<and> generateWebhookTestSignature hmac secretKey payload (Some m) log =
            (if secretKey = [] then (Inl DataError, log)
             else (Inr (hmacHex hmac secretKey (subscriptionMessage m secretKey payload)),
                   log @ [(encode secretKey,
                           encode (subscriptionMessage m secretKey payload))]))"
    by (simp add: verifyWebhookSignature_eq generateWebhookTestSignature_eq b)
  from 1 2 3 4 show "buildMessage secretKey payload merchantId =
       (case merchantId of
          None \<Rightarrow> None
        | Some m \<Rightarrow> if m = [] then None else Some (subscriptionMessage m secretKey payload))
     \<and> verifyWebhookSignature hmac secretKey payload sig None log = (Inr False, log)
     \<and> generateWebhookTestSignature hmac secretKey payload None log = (Inr [], log)
     \<and> (m \<noteq> [] \<longrightarrow>
          verifyWebhookSignature hmac secretKey payload sig (Some m) log =
            (if sig = [] then (Inr False, log)
             else if secretKey = [] then (Inl DataError, log)
             else (Inr (hmacHex hmac secretKey (subscriptionMessage m secretKey payload)
                        = sig),
                   log @ [(encode secretKey,
                           encode (subscriptionMessage m secretKey payload))]))
          \<and> generateWebhookTestSignature hmac secretKey payload (Some m) log =
            (if secretKey = [] then (Inl DataError, log)
             else (Inr (hmacHex hmac secretKey (subscriptionMessage m secretKey payload)),
                   log @ [(encode secretKey,
                           encode (subscriptionMessage m secretKey payload))])))"
    by blast
qed

theorem webhook_subscription_precedence_witness:
  "hasKey mixedExample ''subscriptionReferenceCode'' \<and> hasKey mixedExample ''token''
   \<and> js ''M1'' \<noteq> []
   \<and> buildMessage (js ''secret'') mixedExample (Some (js ''M1'')) =
       Some (js ''M1secretsubscription.order.successsub-1ord-1cus-1'')
   \<and> generateWebhookTestSignature (\<lambda>k m. 0) (js ''secret'') mixedExample None [] = (Inr [], [])
   \<and> fst (generateWebhookTestSignature (\<lambda>k m. 0) (js ''secret'') mixedExample
            (Some (js ''M1'')) []) =
       Inr (hmacHex (\<lambda>k m. 0) (js ''secret'')
              (js ''M1secretsubscription.order.successsub-1ord-1cus-1''))
   \<and> generateWebhookTestSignature (\<lambda>k m. 0) (js '''') mixedExample (Some (js ''M1'')) []
       = (Inl DataError, [])"
proof -
  have n: "js ''M1'' \<noteq> []" by (simp add: js_def)
  have e: "js '''' = []" by (simp add: js_def)
  have c: "subscriptionMessage (js ''M1'') (js ''secret'') mixedExample
           = js ''M1secretsubscription.order.successsub-1ord-1cus-1''"
    by (simp add: subscriptionMessage_def field_def mixedExample_def subscriptionExample_def
        js_def)
  from webhook_subscription_precedence[of mixedExample "js ''secret''" "Some (js ''M1'')"
      "\<lambda>k m. 0" "[]" "[]" "js ''M1''"] mixedExample_has n secret_nonempty
  have "buildMessage (js ''secret'') mixedExample (Some (js ''M1'')) =
          Some (subscriptionMessage (js ''M1'') (js ''secret'') mixedExample)"
    and "generateWebhookTestSignature (\<lambda>k m. 0) (js ''secret'') mixedExample None []
          = (Inr [], [])"
    and "fst (generateWebhookTestSignature (\<lambda>k m. 0) (js ''secret'') mixedExample
            (Some (js ''M1'')) []) =
       Inr (hmacHex (\<lambda>k m. 0) (js ''secret'')
         (subscriptionMessage (js ''M1'') (js ''secret'') mixedExample))"
    by simp_all
  moreover
  from webhook_subscription_precedence[of mixedExample "js ''''" "Some (js ''M1'')"
      "\<lambda>k m. 0" "[]" "[]" "js ''M1''"] mixedExample_has n e
  have "generateWebhookTestSignature (\<lambda>k m. 0) (js '''') mixedExample (Some (js ''M1'')) []
       = (Inl DataError, [])"
    by simp
  ultimately show ?thesis using mixedExample_has n by (simp only: c) simp
qed

section \<open>Authorization header\<close>

lemma isByteString_js_apiKey: "isByteString (js ''apiKey:'')"
  and isByteString_js_randomKey: "isByteString (js ''&randomKey:'')"
  and isByteString_js_signature: "isByteString (js ''&signature:'')"
  by (simp_all add: isByteString_def js_def ch_def)

lemma hmacHex_isByteString: "isByteString (hmacHex hmac secret message)"
  by (simp add: hmacHex_def toHex_isByteString)

lemma generateAuthHeader_eq:
  "generateAuthHeader hmac apiKey secretKey randomKey uriPath body log =
     (let message = (case body of Some b \<Rightarrow> randomKey @ uriPath @ b
                     | None \<Rightarrow> randomKey @ uriPath);
          authString = js ''apiKey:'' @ apiKey @ js ''&randomKey:'' @ randomKey
                       @ js ''&signature:'' @ hmacHex hmac secretKey message
      in if secretKey = [] then (Inl DataError, log)
         else (if isByteString apiKey \<and> isByteString randomKey
               then Inr (js ''IYZWSv2 '' @ base64 (map ucast authString))
               else Inl InvalidCharacterError,
               log @ [(encode secretKey, encode message)]))"
  by (cases body)
     (simp_all add: generateAuthHeader_def hmacSha256Hex_eq btoa_def Let_def
        isByteString_append isByteString_js_apiKey isByteString_js_randomKey
        isByteString_js_signature hmacHex_isByteString)

text \<open>
  Claim C2, as amended. For all strings \<open>apiKey\<close>, \<open>randomKey\<close>, \<open>uriPath\<close>, an
  optional body and a \<open>secretKey\<close> that is not empty, \<open>generateAuthHeader\<close> computes
  one digest, of \<open>randomKey + uriPath + body\<close> (of \<open>randomKey + uriPath\<close> without a
  body) under the secret key, and nothing else. When every code unit of \<open>apiKey\<close> and
  \<open>randomKey\<close> is at most \<open>0xFF\<close> it returns \<open>IYZWSv2\<close>, a space, and the Base64
  text of \<open>apiKey:\<close> + apiKey + \<open>&randomKey:\<close> + randomKey + \<open>&signature:\<close> + the hex
  digest; otherwise \<open>btoa\<close> throws \<open>InvalidCharacterError\<close>. With the empty secret
  key the key import throws \<open>DataError\<close> and no digest is computed.
\<close>

theorem generateAuthHeader_value:
  "generateAuthHeader hmac apiKey secretKey randomKey uriPath body log =
     (let message = (case body of Some b \<Rightarrow> randomKey @ uriPath @ b
                     | None \<Rightarrow> randomKey @ uriPath);
          authString = js ''apiKey:'' @ apiKey @ js ''&randomKey:'' @ randomKey
                       @ js ''&signature:'' @ hmacHex hmac secretKey message
      in if secretKey = [] then (Inl DataError, log)
         else (if isByteString apiKey \<and> isByteString randomKey
               then Inr (js ''IYZWSv2 '' @ base64 (map ucast authString))
               else Inl InvalidCharacterError,
               log @ [(encode secretKey, encode message)]))"
  by (rule generateAuthHeader_eq)

text \<open>
  An API key with a code unit above \<open>0xFF\<close> (here the euro sign) is a string, and the
  call fails on it after its digest; the empty secret key is a string, and the call fails
  on it before any digest.
\<close>

theorem generateAuthHeader_counterexample:
  "\<forall>hmac.
     fst (generateAuthHeader hmac (js ''api_key'' @ [0x20AC]) (js ''secret_key'')
            (js ''random_string'') (js ''uri'') None [])
     = Inl InvalidCharacterError
     \<and> generateAuthHeader hmac (js ''api_key'') (js '''') (js ''random_string'')
            (js ''uri'') None []
       = (Inl DataError, [])"
  by (simp add: generateAuthHeader_eq Let_def isByteString_append isByteString_def js_def)

text \<open>
  The test vector of the repository (\<open>generateAuthHeader('api_key', 'secret_key',
  'random_string', 'uri', '"body"')\<close>): given the digest that the test of
  \<open>hmacSha256Hex\<close> expects for this key and message, the model returns the header
  that the test of \<open>generateAuthHeader\<close> expects, character for character.
\<close>

lemma generateAuthHeader_test_vector:
  assumes "hmacHex hmac (js ''secret_key'') (js ''random_stringuri'' @ 0x22 # js ''body'' @ [0x22])
     = js ''017508921a29ee5601bcd1fbe83efd2e2be43af02eceff30cf2e91a539aab355''"
  shows "fst (generateAuthHeader hmac (js ''api_key'') (js ''secret_key'') (js ''random_string'')
            (js ''uri'') (Some (0x22 # js ''body'' @ [0x22])) [])
   = Inr (js ''IYZWSv2 YXBpS2V5OmFwaV9rZXkmcmFuZG9tS2V5OnJhbmRvbV9zdHJpbmcmc2lnbmF0dXJlOjAxNzUwODkyMWEyOWVlNTYwMWJjZDFmYmU4M2VmZDJlMmJlNDNhZjAyZWNlZmYzMGNmMmU5MWE1MzlhYWIzNTU='')"
proof -
  let ?auth = "js ''apiKey:api_key&randomKey:random_string&signature:017508921a29ee5601bcd1fbe83efd2e2be43af02eceff30cf2e91a539aab355''"
  have k: "js ''secret_key'' \<noteq> []" by (simp add: js_def)
  have m: "js ''random_string'' @ js ''uri'' @ 0x22 # js ''body'' @ [0x22]
      = js ''random_stringuri'' @ 0x22 # js ''body'' @ [0x22]"
    by (simp add: js_def)
  have auth: "js ''apiKey:'' @ js ''api_key'' @ js ''&randomKey:'' @ js ''random_string''
          @ js ''&signature:''
          @ js ''017508921a29ee5601bcd1fbe83efd2e2be43af02eceff30cf2e91a539aab355'' = ?auth"
    by (simp add: js_def)
  have bytes: "isByteString (js ''api_key'')" "isByteString (js ''random_string'')"
    by (simp_all add: isByteString_def js_def ch_def)
  have b64: "base64 (map ucast ?auth)
     = js ''YXBpS2V5OmFwaV9rZXkmcmFuZG9tS2V5OnJhbmRvbV9zdHJpbmcmc2lnbmF0dXJlOjAxNzUwODkyMWEyOWVlNTYwMWJjZDFmYmU4M2VmZDJlMmJlNDNhZjAyZWNlZmYzMGNmMmU5MWE1MzlhYWIzNTU=''"
    by (simp add: js_def ch_def b64char_def)
  have pre: "js ''IYZWSv2 '' @ js ''YXBpS2V5OmFwaV9rZXkmcmFuZG9tS2V5OnJhbmRvbV9zdHJpbmcmc2lnbmF0dXJlOjAxNzUwODkyMWEyOWVlNTYwMWJjZDFmYmU4M2VmZDJlMmJlNDNhZjAyZWNlZmYzMGNmMmU5MWE1MzlhYWIzNTU=''
     = js ''IYZWSv2 YXBpS2V5OmFwaV9rZXkmcmFuZG9tS2V5OnJhbmRvbV9zdHJpbmcmc2lnbmF0dXJlOjAxNzUwODkyMWEyOWVlNTYwMWJjZDFmYmU4M2VmZDJlMmJlNDNhZjAyZWNlZmYzMGNmMmU5MWE1MzlhYWIzNTU=''"
    by (simp add: js_def)
  have "fst (generateAuthHeader hmac (js ''api_key'') (js ''secret_key'') (js ''random_string'')
            (js ''uri'') (Some (0x22 # js ''body'' @ [0x22])) [])
     = Inr (js ''IYZWSv2 '' @ base64 (map ucast ?auth))"
    using k bytes
    by (simp only: generateAuthHeader_eq Let_def option.case m assms auth if_False
        simp_thms if_True fst_conv)
  then show ?thesis
    by (simp only: b64 pre)
qed

section \<open>Path used for signing\<close>

text \<open>
  \<open>indexOf\<close> finds the first occurrence: the string splits there, and no split has a
  shorter prefix.
\<close>

lemma indexOf_Some:
  "indexOf str s = Some i \<Longrightarrow>
   (\<exists>post. str = take i str @ s @ post) \<and> i \<le> length str
   \<and> (\<forall>pre' post'. str = pre' @ s @ post' \<longrightarrow> i \<le> length pre')"
proof (induction str arbitrary: i)
  case Nil
  then show ?case by (auto split: if_splits)
next
  case (Cons c cs)
  show ?case
  proof (cases "take (length s) (c # cs) = s")
    case True
    with Cons.prems have "i = 0" by simp
    moreover have "c # cs = s @ drop (length s) (c # cs)"
      using True by (metis append_take_drop_id)
    ultimately show ?thesis by auto
  next
    case False
    with Cons.prems obtain j where j: "indexOf cs s = Some j" "i = Suc j"
      by auto
    from Cons.IH[OF j(1)] obtain post where post: "cs = take j cs @ s @ post"
      and le: "j \<le> length cs"
      and least: "\<forall>pre' post'. cs = pre' @ s @ post' \<longrightarrow> j \<le> length pre'"
      by blast
    have "c # cs = take i (c # cs) @ s @ post"
      using post j(2) by simp
    moreover have "i \<le> length pre'" if "c # cs = pre' @ s @ post'" for pre' post'
    proof (cases pre')
      case Nil
      with that have "take (length s) (c # cs) = s" by simp
      with False show ?thesis by simp
    next
      case (Cons a pre'')
      with that have "cs = pre'' @ s @ post'" by simp
      with least have "j \<le> length pre''" by blast
      with Cons j(2) show ?thesis by simp
    qed
    ultimately show ?thesis using le j(2) by auto
  qed
qed

lemma indexOf_None: "indexOf str s = None \<Longrightarrow> str \<noteq> pre @ s @ post"
proof (induction str arbitrary: pre)
  case Nil
  then show ?case by (auto split: if_splits)
next
  case (Cons c cs)
  then have nt: "take (length s) (c # cs) \<noteq> s" and n: "indexOf cs s = None"
    by (auto split: if_splits)
  show ?case
  proof (cases pre)
    case Nil
    show ?thesis
    proof
      assume "c # cs = pre @ s @ post"
      with Nil have "take (length s) (c # cs) = s" by simp
      with nt show False by simp
    qed
  next
    case (Cons a pre'')
    with Cons.IH[OF n, of pre''] show ?thesis by auto
  qed
qed

lemma indexOf_char_takeWhile:
  "(case indexOf xs [c] of None \<Rightarrow> xs | Some q \<Rightarrow> take q xs) = takeWhile (\<lambda>x. x \<noteq> c) xs"
  by (induction xs) (auto split: option.splits)

lemma extractUriPath_v2:
  assumes "indexOf url (js ''/v2'') = Some i"
  shows "extractUriPath pathname url = Inr (takeWhile (\<lambda>x. x \<noteq> ch CHR ''?'') (drop i url))"
proof -
  have "(case indexOf (drop i url) [ch CHR ''?''] of None \<Rightarrow> drop i url
          | Some q \<Rightarrow> take q (drop i url))
        = takeWhile (\<lambda>x. x \<noteq> ch CHR ''?'') (drop i url)"
    by (rule indexOf_char_takeWhile)
  moreover have "slice url i (i + q) = take q (drop i url)" for q
    by (simp add: slice_def drop_take)
  ultimately show ?thesis
    using assms
    by (simp add: extractUriPath_def indexOfFrom_def js_def split: option.splits)
qed

text \<open>
  Claim C9. If the URL contains \<open>/v2\<close>, the path used for signing starts at the first
  occurrence of \<open>/v2\<close> and runs up to, and without, the first \<open>?\<close> after it, or to the
  end of the URL if there is none; otherwise it is the path component that the URL parser
  gives (and the parser's \<open>TypeError\<close> where it accepts no such URL).
\<close>

theorem extractUriPath_rule:
  "((\<exists>pre post. url = pre @ js ''/v2'' @ post) \<longrightarrow>
      (\<exists>pre post. url = pre @ js ''/v2'' @ post
         \<and> (\<forall>pre' post'. url = pre' @ js ''/v2'' @ post' \<longrightarrow> length pre \<le> length pre')
         \<and> extractUriPath pathname url =
             Inr (js ''/v2'' @ takeWhile (\<lambda>c. c \<noteq> ch CHR ''?'') post)))
   \<and> (\<not> (\<exists>pre post. url = pre @ js ''/v2'' @ post) \<longrightarrow>
      extractUriPath pathname url =
        (case pathname url of None \<Rightarrow> Inl TypeError | Some p \<Rightarrow> Inr p))"
proof (cases "indexOf url (js ''/v2'')")
  case None
  then have "\<not> (\<exists>pre post. url = pre @ js ''/v2'' @ post)"
    using indexOf_None by blast
  moreover have "extractUriPath pathname url =
        (case pathname url of None \<Rightarrow> Inl TypeError | Some p \<Rightarrow> Inr p)"
    using None by (simp add: extractUriPath_def)
  ultimately show ?thesis by blast
next
  case (Some i)
  from indexOf_Some[OF Some] obtain post where
    post: "url = take i url @ js ''/v2'' @ post" and le: "i \<le> length url"
    and least: "\<forall>pre' post'. url = pre' @ js ''/v2'' @ post' \<longrightarrow> i \<le> length pre'"
    by blast
  have len: "length (take i url) = i" using le by simp
  have "drop i url = js ''/v2'' @ post"
    using post len by (metis append_eq_conv_conj)
  then have "takeWhile (\<lambda>x. x \<noteq> ch CHR ''?'') (drop i url)
      = js ''/v2'' @ takeWhile (\<lambda>c. c \<noteq> ch CHR ''?'') post"
    by (simp add: js_def ch_def)
  with extractUriPath_v2[OF Some, of pathname]
  have r: "extractUriPath pathname url =
      Inr (js ''/v2'' @ takeWhile (\<lambda>c. c \<noteq> ch CHR ''?'') post)" by simp
  have "\<exists>pre post. url = pre @ js ''/v2'' @ post
         \<and> (\<forall>pre' post'. url = pre' @ js ''/v2'' @ post' \<longrightarrow> length pre \<le> length pre')
         \<and> extractUriPath pathname url =
             Inr (js ''/v2'' @ takeWhile (\<lambda>c. c \<noteq> ch CHR ''?'') post)"
    using post least len r by (intro exI[of _ "take i url"] exI[of _ post]) simp
  moreover have "\<exists>pre post. url = pre @ js ''/v2'' @ post" using post by blast
  ultimately show ?thesis by blast
qed


theorem extractUriPath_rule_witness:
  "(\<exists>pre post. js ''https://h.com/v2/a?b=1'' = pre @ js ''/v2'' @ post)
   \<and> (\<exists>pre post. js ''https://h.com/v2/a?b=1'' = pre @ js ''/v2'' @ post
         \<and> extractUriPath (\<lambda>u. None) (js ''https://h.com/v2/a?b=1'') =
             Inr (js ''/v2'' @ takeWhile (\<lambda>c. c \<noteq> ch CHR ''?'') post))
   \<and> extractUriPath (\<lambda>u. None) (js ''https://h.com/v2/a?b=1'') = Inr (js ''/v2/a'')
   \<and> \<not> (\<exists>pre post. js ''https://h.com/payment'' = pre @ js ''/v2'' @ post)
   \<and> extractUriPath (\<lambda>u. Some (js ''/payment'')) (js ''https://h.com/payment'') =
       Inr (js ''/payment'')"
proof -
  have "js ''https://h.com/v2/a?b=1'' = js ''https://h.com'' @ js ''/v2'' @ js ''/a?b=1''"
    by (simp add: js_def)
  then have h1: "\<exists>pre post. js ''https://h.com/v2/a?b=1'' = pre @ js ''/v2'' @ post"
    by blast
  have "indexOf (js ''https://h.com/payment'') (js ''/v2'') = None"
    by (simp add: js_def ch_def)
  then have h2: "\<not> (\<exists>pre post. js ''https://h.com/payment'' = pre @ js ''/v2'' @ post)"
    using indexOf_None by blast
  have e: "extractUriPath (\<lambda>u. None) (js ''https://h.com/v2/a?b=1'') = Inr (js ''/v2/a'')"
    by (simp add: extractUriPath_def indexOfFrom_def slice_def js_def ch_def)
  from extractUriPath_rule[of "js ''https://h.com/v2/a?b=1''" "\<lambda>u. None"] h1
  have "\<exists>pre post. js ''https://h.com/v2/a?b=1'' = pre @ js ''/v2'' @ post
         \<and> extractUriPath (\<lambda>u. None) (js ''https://h.com/v2/a?b=1'') =
             Inr (js ''/v2'' @ takeWhile (\<lambda>c. c \<noteq> ch CHR ''?'') post)"
    by blast
  moreover from extractUriPath_rule[of "js ''https://h.com/payment''"
      "\<lambda>u. Some (js ''/payment'')"] h2
  have "extractUriPath (\<lambda>u. Some (js ''/payment'')) (js ''https://h.com/payment'') =
       Inr (js ''/payment'')"
    by simp
  ultimately show ?thesis using h1 h2 e by blast
qed

end
